theory Spec2Isabelle
  imports Complex_Main "HOL-Library.Word"
begin

section \<open>Scalars, vectors and index triples\<close>

text \<open>
  The mesh stores \<open>double\<close> coordinates. They are embedded as \<open>real\<close>: the order, the
  sums and the quotients below are the exact ones; rounding and overflow to infinity
  are not represented. Positions, texture coordinates and areas are finite. A NaN
  arises where a vector of length zero is normalized (\<open>0 / 0\<close> in every component): a
  vector whose components may be NaNs is a \<open>Vector3D option\<close>, a scalar that may be a NaN
  a \<open>real option\<close>, and \<open>None\<close> is the NaN. An arithmetic operation with a NaN operand
  is a NaN (\<open>nan2\<close>); a comparison with a NaN is false. The one other division by zero,
  by a total area of zero, is the error \<open>NonFinite\<close>. Reading a sequence out of range
  is undefined behaviour in the source (\<open>std::vector::operator[]\<close>); here it is the
  error \<open>OutOfRange\<close>. \<open>size_t\<close> is taken to be 64 bits wide.
\<close>

datatype error = OutOfRange | NonFinite | AssertionFailed

fun bindE :: "error + 'a \<Rightarrow> ('a \<Rightarrow> error + 'b) \<Rightarrow> error + 'b" where
  "bindE (Inl e) f = Inl e"
| "bindE (Inr v) f = f v"

text \<open>\<open>std::numeric_limits<double>::max()\<close>, the largest finite binary64 value.\<close>

definition DBL_MAX :: real where
  "DBL_MAX = (2 ^ 53 - 1) * 2 ^ 971"

text \<open>
  Modelled from the spec: the vector and point types are declared in headers outside
  the files at hand. The spec has 3D positions and normals, 2D texture coordinates and
  index triples of three unsigned integers; the operations below are the componentwise
  ones the mesh calls by name.
\<close>

datatype Vector3D = Vector3D (vx: real) (vy: real) (vz: real)

datatype Vector2D = Vector2D (ux: real) (uy: real)

type_synonym size_t = "64 word"

type_synonym Point3UI = "size_t \<times> size_t \<times> size_t"

text \<open>\<open>operator[]\<close> of a three-element point or array, for \<open>j\<close> in \<open>0, 1, 2\<close>.\<close>

fun at3 :: "'a \<times> 'a \<times> 'a \<Rightarrow> nat \<Rightarrow> 'a" where
  "at3 (a, b, c) j = (if j = 0 then a else if j = 1 then b else c)"

text \<open>\<open>Array1::operator[]\<close>: element \<open>i\<close>, undefined out of range.\<close>

definition array_at :: "'a list \<Rightarrow> nat \<Rightarrow> error + 'a" where
  "array_at xs i = (if i < length xs then Inr (xs ! i) else Inl OutOfRange)"

definition Vector3D_sub :: "Vector3D \<Rightarrow> Vector3D \<Rightarrow> Vector3D" where
  "Vector3D_sub a b = Vector3D (vx a - vx b) (vy a - vy b) (vz a - vz b)"

definition Vector3D_add :: "Vector3D \<Rightarrow> Vector3D \<Rightarrow> Vector3D" where
  "Vector3D_add a b = Vector3D (vx a + vx b) (vy a + vy b) (vz a + vz b)"

definition Vector3D_scale :: "real \<Rightarrow> Vector3D \<Rightarrow> Vector3D" where
  "Vector3D_scale s a = Vector3D (s * vx a) (s * vy a) (s * vz a)"

definition dot :: "Vector3D \<Rightarrow> Vector3D \<Rightarrow> real" where
  "dot a b = vx a * vx b + vy a * vy b + vz a * vz b"

definition cross :: "Vector3D \<Rightarrow> Vector3D \<Rightarrow> Vector3D" where
  "cross a b = Vector3D (vy a * vz b - vz a * vy b) (vz a * vx b - vx a * vz b)
     (vx a * vy b - vy a * vx b)"

definition lengthSquared :: "Vector3D \<Rightarrow> real" where
  "lengthSquared a = vx a * vx a + vy a * vy a + vz a * vz a"

definition length3 :: "Vector3D \<Rightarrow> real" where
  "length3 a = sqrt (lengthSquared a)"

text \<open>
  \<open>Vector3D::operator/\<close> divides each component by \<open>s\<close>. A divisor of zero leaves
  no vector of numbers. The source divides by zero the zero vector only, in
  \<open>normalize\<close>, where every component is the NaN \<open>0 / 0\<close>.
\<close>

definition Vector3D_div :: "Vector3D \<Rightarrow> real \<Rightarrow> Vector3D option" where
  "Vector3D_div a s = (if s = 0 then None else Some (Vector3D (vx a / s) (vy a / s) (vz a / s)))"

definition nan2 :: "('a \<Rightarrow> 'b \<Rightarrow> 'c) \<Rightarrow> 'a option \<Rightarrow> 'b option \<Rightarrow> 'c option" where
  "nan2 f a b =
     (case a of None \<Rightarrow> None | Some x \<Rightarrow> (case b of None \<Rightarrow> None | Some y \<Rightarrow> Some (f x y)))"

text \<open>
  \<open>Vector3D::normalize\<close> divides each component by the length. At the zero vector
  that is \<open>0 / 0\<close>, a NaN in every component.
\<close>

definition normalize :: "Vector3D option \<Rightarrow> Vector3D option" where
  "normalize v = (case v of None \<Rightarrow> None | Some a \<Rightarrow> Vector3D_div a (length3 a))"

section \<open>The indexed mesh and the per-face triangle view\<close>

record Triangle3 =
  points :: "Vector3D \<times> Vector3D \<times> Vector3D"
  normals :: "Vector3D option \<times> Vector3D option \<times> Vector3D option"
  uvs :: "Vector2D \<times> Vector2D \<times> Vector2D"

record TriangleMesh3 =
  m_points :: "Vector3D list"
  m_normals :: "Vector3D option list"
  m_uvs :: "Vector2D list"
  m_pointIndices :: "Point3UI list"
  m_normalIndices :: "Point3UI list"
  m_uvIndices :: "Point3UI list"
  m_areaCache :: "real list"

definition numberOfPoints :: "TriangleMesh3 \<Rightarrow> nat" where
  "numberOfPoints m = length (m_points m)"

definition numberOfFaces :: "TriangleMesh3 \<Rightarrow> nat" where
  "numberOfFaces m = length (m_pointIndices m)"

definition hasNormals :: "TriangleMesh3 \<Rightarrow> bool" where
  "hasNormals m = (length (m_normals m) > 0)"

definition hasUvs :: "TriangleMesh3 \<Rightarrow> bool" where
  "hasUvs m = (length (m_uvs m) > 0)"

text \<open>
  Modelled from the spec: \<open>Triangle3::faceNormal\<close> and \<open>Triangle3::area\<close> belong to the
  single-triangle primitive, whose source is not part of the files at hand. The spec
  gives the flat normal as the cross product of two edges, normalized, oriented by the
  winding order, and the area by the cross-product formula.
\<close>

definition faceNormal :: "Triangle3 \<Rightarrow> Vector3D option" where
  "faceNormal tri =
     (case points tri of (p0, p1, p2) \<Rightarrow>
        normalize (Some (cross (Vector3D_sub p1 p0) (Vector3D_sub p2 p0))))"

definition area :: "Triangle3 \<Rightarrow> real" where
  "area tri =
     (case points tri of (p0, p1, p2) \<Rightarrow>
        0.5 * length3 (cross (Vector3D_sub p1 p0) (Vector3D_sub p2 p0)))"

text \<open>Gathering the three elements an index triple names.\<close>

definition gather3 :: "'a list \<Rightarrow> Point3UI \<Rightarrow> error + ('a \<times> 'a \<times> 'a)" where
  "gather3 xs f =
     bindE (array_at xs (unat (at3 f 0))) (\<lambda>a.
     bindE (array_at xs (unat (at3 f 1))) (\<lambda>b.
     bindE (array_at xs (unat (at3 f 2))) (\<lambda>c. Inr (a, b, c))))"

text \<open>
  \<open>TriangleMesh3::triangle\<close>: positions through \<open>_pointIndices[i]\<close>, uvs through
  \<open>_uvIndices[i]\<close> when the mesh has uvs (else the default-constructed zeros), the flat
  normal of the positions, then normals through \<open>_normalIndices[i]\<close> when the mesh has
  normals, else the flat normal three times.
\<close>

definition triangle :: "TriangleMesh3 \<Rightarrow> nat \<Rightarrow> error + Triangle3" where
  "triangle m i =
     bindE (array_at (m_pointIndices m) i) (\<lambda>pf.
     bindE (gather3 (m_points m) pf) (\<lambda>ps.
     bindE (if hasUvs m
            then bindE (array_at (m_uvIndices m) i) (gather3 (m_uvs m))
            else Inr (Vector2D 0 0, Vector2D 0 0, Vector2D 0 0)) (\<lambda>ts.
       let n = faceNormal \<lparr>points = ps,
                 normals = (Some (Vector3D 0 0 0), Some (Vector3D 0 0 0), Some (Vector3D 0 0 0)),
                 uvs = ts\<rparr>
       in bindE (if hasNormals m
                 then bindE (array_at (m_normalIndices m) i) (gather3 (m_normals m))
                 else Inr (n, n, n)) (\<lambda>ns.
          Inr \<lparr>points = ps, normals = ns, uvs = ts\<rparr>))))"

section \<open>Closest-point queries\<close>

text \<open>
  The closest-point, closest-normal and closest-distance capabilities of the
  single-triangle primitive are parameters (\<open>tcp\<close>, \<open>tcn\<close>, \<open>tcd\<close>): the mesh consumes
  them as a black box. Each loop \<open>for (i = 0; i < n; ++i)\<close> is a recursion over the
  indices \<open>[0..<n]\<close>, carrying the loop's local variables.
\<close>

text \<open>Lines 65 to 67: the closest point of face \<open>i\<close> and its squared distance.\<close>

definition faceClosestPoint ::
  "(Triangle3 \<Rightarrow> Vector3D \<Rightarrow> Vector3D) \<Rightarrow> TriangleMesh3 \<Rightarrow> Vector3D \<Rightarrow> nat
     \<Rightarrow> error + (Vector3D \<times> real)" where
  "faceClosestPoint tcp m otherPoint i =
     bindE (triangle m i) (\<lambda>tri.
       let pt = tcp tri otherPoint;
           distSquared = lengthSquared (Vector3D_sub otherPoint pt)
       in Inr (pt, distSquared))"

fun closestPoint_loop ::
  "(Triangle3 \<Rightarrow> Vector3D \<Rightarrow> Vector3D) \<Rightarrow> TriangleMesh3 \<Rightarrow> Vector3D \<Rightarrow> nat list
     \<Rightarrow> Vector3D \<times> real \<Rightarrow> error + (Vector3D \<times> real)" where
  "closestPoint_loop tcp m otherPoint [] st = Inr st"
| "closestPoint_loop tcp m otherPoint (i # is) (minDistPt, minDistSquared) =
     bindE (faceClosestPoint tcp m otherPoint i) (\<lambda>(pt, distSquared).
       if distSquared < minDistSquared
       then closestPoint_loop tcp m otherPoint is (pt, distSquared)
       else closestPoint_loop tcp m otherPoint is (minDistPt, minDistSquared))"

definition closestPoint ::
  "(Triangle3 \<Rightarrow> Vector3D \<Rightarrow> Vector3D) \<Rightarrow> TriangleMesh3 \<Rightarrow> Vector3D \<Rightarrow> error + Vector3D" where
  "closestPoint tcp m otherPoint =
     bindE (closestPoint_loop tcp m otherPoint [0..<numberOfFaces m]
              (Vector3D DBL_MAX DBL_MAX DBL_MAX, DBL_MAX))
       (\<lambda>(minDistPt, minDistSquared). Inr minDistPt)"

text \<open>
  \<open>actualClosestNormal\<close> runs the same scan and also records the primitive's closest
  normal of the face that lowers the minimum.
\<close>

fun actualClosestNormal_loop ::
  "(Triangle3 \<Rightarrow> Vector3D \<Rightarrow> Vector3D) \<Rightarrow> (Triangle3 \<Rightarrow> Vector3D \<Rightarrow> Vector3D)
     \<Rightarrow> TriangleMesh3 \<Rightarrow> Vector3D \<Rightarrow> nat list
     \<Rightarrow> Vector3D \<times> Vector3D \<times> real \<Rightarrow> error + (Vector3D \<times> Vector3D \<times> real)" where
  "actualClosestNormal_loop tcp tcn m otherPoint [] st = Inr st"
| "actualClosestNormal_loop tcp tcn m otherPoint (i # is)
       (minDistPt, minDistNormal, minDistSquared) =
     bindE (triangle m i) (\<lambda>tri.
       let pt = tcp tri otherPoint;
           distSquared = lengthSquared (Vector3D_sub otherPoint pt)
       in if distSquared < minDistSquared
          then actualClosestNormal_loop tcp tcn m otherPoint is
                 (pt, tcn tri otherPoint, distSquared)
          else actualClosestNormal_loop tcp tcn m otherPoint is
                 (minDistPt, minDistNormal, minDistSquared))"

definition actualClosestNormal ::
  "(Triangle3 \<Rightarrow> Vector3D \<Rightarrow> Vector3D) \<Rightarrow> (Triangle3 \<Rightarrow> Vector3D \<Rightarrow> Vector3D)
     \<Rightarrow> TriangleMesh3 \<Rightarrow> Vector3D \<Rightarrow> error + Vector3D" where
  "actualClosestNormal tcp tcn m otherPoint =
     bindE (actualClosestNormal_loop tcp tcn m otherPoint [0..<numberOfFaces m]
              (Vector3D DBL_MAX DBL_MAX DBL_MAX, Vector3D 1 0 0, DBL_MAX))
       (\<lambda>(minDistPt, minDistNormal, minDistSquared). Inr minDistNormal)"

text \<open>\<open>std::min(a, b)\<close> is \<open>b\<close> when \<open>b < a\<close>, else \<open>a\<close>.\<close>

definition std_min :: "real \<Rightarrow> real \<Rightarrow> real" where
  "std_min a b = (if b < a then b else a)"

fun closestDistance_loop ::
  "(Triangle3 \<Rightarrow> Vector3D \<Rightarrow> real) \<Rightarrow> TriangleMesh3 \<Rightarrow> Vector3D \<Rightarrow> nat list \<Rightarrow> real
     \<Rightarrow> error + real" where
  "closestDistance_loop tcd m otherPoint [] minDist = Inr minDist"
| "closestDistance_loop tcd m otherPoint (i # is) minDist =
     bindE (triangle m i) (\<lambda>tri.
       closestDistance_loop tcd m otherPoint is (std_min minDist (tcd tri otherPoint)))"

definition closestDistance ::
  "(Triangle3 \<Rightarrow> Vector3D \<Rightarrow> real) \<Rightarrow> TriangleMesh3 \<Rightarrow> Vector3D \<Rightarrow> error + real" where
  "closestDistance tcd m otherPoint =
     closestDistance_loop tcd m otherPoint [0..<numberOfFaces m] DBL_MAX"

text \<open>
  The closest-point and closest-intersection loops share one shape: a running minimum
  replaced only by a strictly smaller candidate. \<open>first_min_scan\<close> is that shape on a
  list of candidates that were computed without error.
\<close>

fun first_min_scan :: "'a \<times> real \<Rightarrow> ('a \<times> real) list \<Rightarrow> 'a \<times> real" where
  "first_min_scan st [] = st"
| "first_min_scan st (f # fs) =
     (if snd f < snd st then first_min_scan f fs else first_min_scan st fs)"

section \<open>Ray intersection\<close>

text \<open>
  Modelled from the spec: the type \<open>SurfaceRayIntersection3\<close> is declared outside the
  files at hand; the spec lists its contents as hit point, normal, ray parameter \<open>t\<close>
  and distance. The mesh reads only the field \<open>t\<close> and copies the record whole.
\<close>

record SurfaceRayIntersection3 =
  isect_point :: Vector3D
  isect_normal :: Vector3D
  isect_t :: real
  isect_distance :: real

text \<open>
  \<open>getClosestIntersection\<close>. The parameter \<open>tgi tri ray\<close> stands for the contents of the
  local \<open>tmpIntersection\<close> after the primitive's \<open>tri.getClosestIntersection(ray, &tmpIntersection)\<close>;
  the ray type is left open, the mesh only hands the ray on. The state of the loop is the
  caller's record \<open>*intersection\<close> and the local \<open>t\<close>.
\<close>

fun getClosestIntersection_loop ::
  "(Triangle3 \<Rightarrow> 'ray \<Rightarrow> SurfaceRayIntersection3) \<Rightarrow> TriangleMesh3 \<Rightarrow> 'ray \<Rightarrow> nat list
     \<Rightarrow> SurfaceRayIntersection3 \<times> real \<Rightarrow> error + (SurfaceRayIntersection3 \<times> real)" where
  "getClosestIntersection_loop tgi m ray [] st = Inr st"
| "getClosestIntersection_loop tgi m ray (i # is) (intersection, t) =
     bindE (triangle m i) (\<lambda>tri.
       let tmpIntersection = tgi tri ray
       in if isect_t tmpIntersection < t
          then getClosestIntersection_loop tgi m ray is
                 (tmpIntersection, isect_t tmpIntersection)
          else getClosestIntersection_loop tgi m ray is (intersection, t))"

definition getClosestIntersection ::
  "(Triangle3 \<Rightarrow> 'ray \<Rightarrow> SurfaceRayIntersection3) \<Rightarrow> TriangleMesh3 \<Rightarrow> 'ray
     \<Rightarrow> SurfaceRayIntersection3 \<Rightarrow> error + SurfaceRayIntersection3" where
  "getClosestIntersection tgi m ray intersection =
     bindE (getClosestIntersection_loop tgi m ray [0..<numberOfFaces m]
              (intersection, DBL_MAX))
       (\<lambda>(intersection', t). Inr intersection')"

section \<open>Appending attributes and faces\<close>

text \<open>The default constructor: every sequence empty.\<close>

definition emptyMesh :: TriangleMesh3 where
  "emptyMesh = \<lparr>m_points = [], m_normals = [], m_uvs = [], m_pointIndices = [],
                 m_normalIndices = [], m_uvIndices = [], m_areaCache = []\<rparr>"

text \<open>
  Modelled from the spec: the macro \<open>JET_ASSERT\<close> is defined outside the files at hand. The
  spec has precondition violations "optionally asserted in debug builds": with \<open>debug\<close>
  the macro stops the program when its condition is false, without \<open>debug\<close> it expands
  to nothing.
\<close>

definition JET_ASSERT :: "bool \<Rightarrow> bool \<Rightarrow> error + unit" where
  "JET_ASSERT debug c = (if debug \<and> \<not> c then Inl AssertionFailed else Inr ())"

definition addPoint :: "TriangleMesh3 \<Rightarrow> Vector3D \<Rightarrow> TriangleMesh3" where
  "addPoint m pt = m\<lparr>m_points := m_points m @ [pt]\<rparr>"

definition addNormal :: "TriangleMesh3 \<Rightarrow> Vector3D option \<Rightarrow> TriangleMesh3" where
  "addNormal m n = m\<lparr>m_normals := m_normals m @ [n]\<rparr>"

definition addUv :: "TriangleMesh3 \<Rightarrow> Vector2D \<Rightarrow> TriangleMesh3" where
  "addUv m t = m\<lparr>m_uvs := m_uvs m @ [t]\<rparr>"

definition addPointFace :: "TriangleMesh3 \<Rightarrow> Point3UI \<Rightarrow> TriangleMesh3" where
  "addPointFace m newPointIndices =
     m\<lparr>m_pointIndices := m_pointIndices m @ [newPointIndices]\<rparr>"

definition addPointNormalFace ::
  "bool \<Rightarrow> TriangleMesh3 \<Rightarrow> Point3UI \<Rightarrow> Point3UI \<Rightarrow> error + TriangleMesh3" where
  "addPointNormalFace debug m newPointIndices newNormalIndices =
     bindE (JET_ASSERT debug (length (m_pointIndices m) = length (m_normalIndices m))) (\<lambda>_.
     Inr (m\<lparr>m_pointIndices := m_pointIndices m @ [newPointIndices],
            m_normalIndices := m_normalIndices m @ [newNormalIndices]\<rparr>))"

text \<open>
  The second assertion of \<open>addPointNormalUvFace\<close> and the assertion of \<open>addPointUvFace\<close>
  compare the face count with \<open>_uvs.size()\<close>, the number of texture coordinates, as the
  source has it.
\<close>

definition addPointNormalUvFace ::
  "bool \<Rightarrow> TriangleMesh3 \<Rightarrow> Point3UI \<Rightarrow> Point3UI \<Rightarrow> Point3UI \<Rightarrow> error + TriangleMesh3" where
  "addPointNormalUvFace debug m newPointIndices newNormalIndices newUvIndices =
     bindE (JET_ASSERT debug (length (m_pointIndices m) = length (m_normalIndices m))) (\<lambda>_.
     bindE (JET_ASSERT debug (length (m_pointIndices m) = length (m_uvs m))) (\<lambda>_.
     Inr (m\<lparr>m_pointIndices := m_pointIndices m @ [newPointIndices],
            m_normalIndices := m_normalIndices m @ [newNormalIndices],
            m_uvIndices := m_uvIndices m @ [newUvIndices]\<rparr>)))"

definition addPointUvFace ::
  "bool \<Rightarrow> TriangleMesh3 \<Rightarrow> Point3UI \<Rightarrow> Point3UI \<Rightarrow> error + TriangleMesh3" where
  "addPointUvFace debug m newPointIndices newUvIndices =
     bindE (JET_ASSERT debug (length (m_pointIndices m) = length (m_uvs m))) (\<lambda>_.
     Inr (m\<lparr>m_pointIndices := m_pointIndices m @ [newPointIndices],
            m_uvIndices := m_uvIndices m @ [newUvIndices]\<rparr>))"

text \<open>
  \<open>addTriangle\<close>: three fresh positions, normals and uvs, and one face naming them. The
  start indices are \<open>size_t\<close> values.
\<close>

definition addTriangle :: "TriangleMesh3 \<Rightarrow> Triangle3 \<Rightarrow> TriangleMesh3" where
  "addTriangle m tri =
     (let vStart = (word_of_nat (length (m_points m)) :: size_t);
          nStart = (word_of_nat (length (m_normals m)) :: size_t);
          tStart = (word_of_nat (length (m_uvs m)) :: size_t)
      in m\<lparr>m_points := m_points m @ [at3 (points tri) 0, at3 (points tri) 1, at3 (points tri) 2],
           m_normals := m_normals m @
             [at3 (normals tri) 0, at3 (normals tri) 1, at3 (normals tri) 2],
           m_uvs := m_uvs m @ [at3 (uvs tri) 0, at3 (uvs tri) 1, at3 (uvs tri) 2],
           m_pointIndices := m_pointIndices m @ [(vStart + 0, vStart + 1, vStart + 2)],
           m_normalIndices := m_normalIndices m @ [(nStart + 0, nStart + 1, nStart + 2)],
           m_uvIndices := m_uvIndices m @ [(tStart + 0, tStart + 1, tStart + 2)]\<rparr>)"

text \<open>A call of one of the face-append operations, and a sequence of such calls.\<close>

datatype face_call =
    AddPointFace Point3UI
  | AddPointNormalFace Point3UI Point3UI
  | AddPointNormalUvFace Point3UI Point3UI Point3UI
  | AddPointUvFace Point3UI Point3UI
  | AddTriangle Triangle3

fun run_face_call :: "bool \<Rightarrow> TriangleMesh3 \<Rightarrow> face_call \<Rightarrow> error + TriangleMesh3" where
  "run_face_call debug m (AddPointFace pf) = Inr (addPointFace m pf)"
| "run_face_call debug m (AddPointNormalFace pf nf) = addPointNormalFace debug m pf nf"
| "run_face_call debug m (AddPointNormalUvFace pf nf tf) = addPointNormalUvFace debug m pf nf tf"
| "run_face_call debug m (AddPointUvFace pf tf) = addPointUvFace debug m pf tf"
| "run_face_call debug m (AddTriangle tri) = Inr (addTriangle m tri)"

fun run_face_calls :: "bool \<Rightarrow> TriangleMesh3 \<Rightarrow> face_call list \<Rightarrow> error + TriangleMesh3" where
  "run_face_calls debug m [] = Inr m"
| "run_face_calls debug m (c # cs) =
     bindE (run_face_call debug m c) (\<lambda>m'. run_face_calls debug m' cs)"

fun carriesNormals :: "face_call \<Rightarrow> bool" where
  "carriesNormals (AddPointFace pf) = False"
| "carriesNormals (AddPointNormalFace pf nf) = True"
| "carriesNormals (AddPointNormalUvFace pf nf tf) = True"
| "carriesNormals (AddPointUvFace pf tf) = False"
| "carriesNormals (AddTriangle tri) = True"

fun carriesUvs :: "face_call \<Rightarrow> bool" where
  "carriesUvs (AddPointFace pf) = False"
| "carriesUvs (AddPointNormalFace pf nf) = False"
| "carriesUvs (AddPointNormalUvFace pf nf tf) = True"
| "carriesUvs (AddPointUvFace pf tf) = True"
| "carriesUvs (AddTriangle tri) = True"

text \<open>
  The invariant in the spec's words: a non-empty \<open>normalFaces\<close> (respectively \<open>uvFaces\<close>)
  has the length of \<open>positionFaces\<close>.
\<close>

definition faceLengthsMatch :: "TriangleMesh3 \<Rightarrow> bool" where
  "faceLengthsMatch m =
     ((m_normalIndices m = [] \<or> length (m_normalIndices m) = length (m_pointIndices m))
      \<and> (m_uvIndices m = [] \<or> length (m_uvIndices m) = length (m_pointIndices m)))"

section \<open>Reading the interchange format\<close>

text \<open>
  Modelled from the spec: the decoder and its event types are outside the files at
  hand; the spec has an external parser's event callbacks and the format's 1-based
  indices. \<open>readObj\<close> registers one handler per event of the decoder and returns what
  the decoder's \<open>parse\<close> returns. The decoder is a parameter: it turns the stream into
  the events it raises, in order, and its success flag. An \<open>obj::index_type\<close> is taken to
  be 64 bits wide; converted to \<open>size_t\<close> it keeps its bits, so \<open>v - 1\<close> is the
  subtraction of 64-bit words. The info, warning and error handlers only print.
\<close>

type_synonym index_type = "64 word"

datatype obj_event =
    GeometricVertex real real real
  | TextureVertex real real
  | VertexNormal real real real
  | TriangularFaceV index_type index_type index_type
  | TriangularFaceVT "index_type \<times> index_type" "index_type \<times> index_type"
      "index_type \<times> index_type"
  | TriangularFaceVN "index_type \<times> index_type" "index_type \<times> index_type"
      "index_type \<times> index_type"
  | TriangularFaceVTN "index_type \<times> index_type \<times> index_type"
      "index_type \<times> index_type \<times> index_type" "index_type \<times> index_type \<times> index_type"
  | QuadrilateralFaceV index_type index_type index_type index_type
  | QuadrilateralFaceVT "index_type \<times> index_type" "index_type \<times> index_type"
      "index_type \<times> index_type" "index_type \<times> index_type"
  | QuadrilateralFaceVN "index_type \<times> index_type" "index_type \<times> index_type"
      "index_type \<times> index_type" "index_type \<times> index_type"
  | QuadrilateralFaceVTN "index_type \<times> index_type \<times> index_type"
      "index_type \<times> index_type \<times> index_type" "index_type \<times> index_type \<times> index_type"
      "index_type \<times> index_type \<times> index_type"
  | PolygonalFaceVBegin index_type index_type index_type
  | PolygonalFaceVVertex index_type
  | PolygonalFaceVEnd
  | PolygonalFaceVTBegin "index_type \<times> index_type" "index_type \<times> index_type"
      "index_type \<times> index_type"
  | PolygonalFaceVTVertex "index_type \<times> index_type"
  | PolygonalFaceVTEnd
  | PolygonalFaceVNBegin "index_type \<times> index_type" "index_type \<times> index_type"
      "index_type \<times> index_type"
  | PolygonalFaceVNVertex "index_type \<times> index_type"
  | PolygonalFaceVNEnd
  | PolygonalFaceVTNBegin "index_type \<times> index_type \<times> index_type"
      "index_type \<times> index_type \<times> index_type" "index_type \<times> index_type \<times> index_type"
  | PolygonalFaceVTNVertex "index_type \<times> index_type \<times> index_type"
  | PolygonalFaceVTNEnd
  | GroupName string
  | SmoothingGroup nat
  | ObjectName string
  | MaterialLibrary string
  | MaterialName string
  | Comment string
  | Info nat string
  | Warning nat string
  | Error nat string

text \<open>
  The handlers, in the order of the source. In a two-index tuple the first component is
  the position index; in the three-index tuple the components are position, texture
  and normal index, as the names \<open>v0_vt0_vn0\<close> of the source say. The last triangular
  handler passes the components in this order to \<open>addPointNormalUvFace\<close>, whose
  parameters are point, normal and uv indices.
\<close>

fun readObj_handler :: "bool \<Rightarrow> TriangleMesh3 \<Rightarrow> obj_event \<Rightarrow> error + TriangleMesh3" where
  "readObj_handler debug m (GeometricVertex x y z) = Inr (addPoint m (Vector3D x y z))"
| "readObj_handler debug m (TextureVertex u v) = Inr (addUv m (Vector2D u v))"
| "readObj_handler debug m (VertexNormal nx ny nz) =
     Inr (addNormal m (Some (Vector3D nx ny nz)))"
| "readObj_handler debug m (TriangularFaceV v0 v1 v2) =
     Inr (addPointFace m (v0 - 1, v1 - 1, v2 - 1))"
| "readObj_handler debug m (TriangularFaceVT v0_vt0 v1_vt1 v2_vt2) =
     addPointUvFace debug m
       (fst v0_vt0 - 1, fst v1_vt1 - 1, fst v2_vt2 - 1)
       (snd v0_vt0 - 1, snd v1_vt1 - 1, snd v2_vt2 - 1)"
| "readObj_handler debug m (TriangularFaceVN v0_vn0 v1_vn1 v2_vn2) =
     addPointNormalFace debug m
       (fst v0_vn0 - 1, fst v1_vn1 - 1, fst v2_vn2 - 1)
       (snd v0_vn0 - 1, snd v1_vn1 - 1, snd v2_vn2 - 1)"
| "readObj_handler debug m (TriangularFaceVTN v0_vt0_vn0 v1_vt1_vn1 v2_vt2_vn2) =
     addPointNormalUvFace debug m
       (fst v0_vt0_vn0 - 1, fst v1_vt1_vn1 - 1, fst v2_vt2_vn2 - 1)
       (fst (snd v0_vt0_vn0) - 1, fst (snd v1_vt1_vn1) - 1, fst (snd v2_vt2_vn2) - 1)
       (snd (snd v0_vt0_vn0) - 1, snd (snd v1_vt1_vn1) - 1, snd (snd v2_vt2_vn2) - 1)"
| "readObj_handler debug m ev = Inr m"

fun readObj_events :: "bool \<Rightarrow> TriangleMesh3 \<Rightarrow> obj_event list \<Rightarrow> error + TriangleMesh3" where
  "readObj_events debug m [] = Inr m"
| "readObj_events debug m (ev # evs) =
     bindE (readObj_handler debug m ev) (\<lambda>m'. readObj_events debug m' evs)"

text \<open>
  \<open>readObj\<close>: the mesh after the handlers have run, and the value returned, which is
  \<open>parser.parse(*strm)\<close>.
\<close>

definition readObj ::
  "(string \<Rightarrow> obj_event list \<times> bool) \<Rightarrow> bool \<Rightarrow> TriangleMesh3 \<Rightarrow> string
     \<Rightarrow> error + (TriangleMesh3 \<times> bool)" where
  "readObj parse debug m strm =
     (case parse strm of (events, ok) \<Rightarrow>
        bindE (readObj_events debug m events) (\<lambda>m'. Inr (m', ok)))"

text \<open>The quadrilateral and polygonal face events.\<close>

fun isNonTriangularFace :: "obj_event \<Rightarrow> bool" where
  "isNonTriangularFace (QuadrilateralFaceV a b c d) = True"
| "isNonTriangularFace (QuadrilateralFaceVT a b c d) = True"
| "isNonTriangularFace (QuadrilateralFaceVN a b c d) = True"
| "isNonTriangularFace (QuadrilateralFaceVTN a b c d) = True"
| "isNonTriangularFace (PolygonalFaceVBegin a b c) = True"
| "isNonTriangularFace (PolygonalFaceVVertex a) = True"
| "isNonTriangularFace PolygonalFaceVEnd = True"
| "isNonTriangularFace (PolygonalFaceVTBegin a b c) = True"
| "isNonTriangularFace (PolygonalFaceVTVertex a) = True"
| "isNonTriangularFace PolygonalFaceVTEnd = True"
| "isNonTriangularFace (PolygonalFaceVNBegin a b c) = True"
| "isNonTriangularFace (PolygonalFaceVNVertex a) = True"
| "isNonTriangularFace PolygonalFaceVNEnd = True"
| "isNonTriangularFace (PolygonalFaceVTNBegin a b c) = True"
| "isNonTriangularFace (PolygonalFaceVTNVertex a) = True"
| "isNonTriangularFace PolygonalFaceVTNEnd = True"
| "isNonTriangularFace ev = False"

section \<open>The area cache and sampling\<close>

text \<open>
  \<open>Array1::resize\<close> keeps the leading elements and fills up with \<open>initVal\<close>; an
  assignment \<open>a[i] = v\<close> out of range is undefined.
\<close>

definition resize :: "'a list \<Rightarrow> nat \<Rightarrow> 'a \<Rightarrow> 'a list" where
  "resize xs n initVal = take n xs @ replicate (n - length xs) initVal"

definition array_set :: "'a list \<Rightarrow> nat \<Rightarrow> 'a \<Rightarrow> error + 'a list" where
  "array_set xs i v = (if i < length xs then Inr (xs[i := v]) else Inl OutOfRange)"

text \<open>
  The first loop of \<open>computeAreaCache\<close>, \<open>_areaCache[i] = triarea + _areaCache[i-1]\<close>,
  and the second, \<open>_areaCache[i] /= _areaCache[numberOfFaces()]\<close>, which reads the
  divisor anew in every round. Both run over \<open>i = 1, ..., _areaCache.size() - 1\<close>.
\<close>

fun areaCache_accumulate :: "TriangleMesh3 \<Rightarrow> nat list \<Rightarrow> real list \<Rightarrow> error + real list" where
  "areaCache_accumulate m [] cache = Inr cache"
| "areaCache_accumulate m (i # is) cache =
     bindE (triangle m (i - 1)) (\<lambda>tri.
       let triarea = area tri
       in bindE (array_at cache (i - 1)) (\<lambda>prev.
          bindE (array_set cache i (triarea + prev)) (areaCache_accumulate m is)))"

fun areaCache_normalize :: "nat \<Rightarrow> nat list \<Rightarrow> real list \<Rightarrow> error + real list" where
  "areaCache_normalize n [] cache = Inr cache"
| "areaCache_normalize n (i # is) cache =
     bindE (array_at cache i) (\<lambda>x.
     bindE (array_at cache n) (\<lambda>total.
       if total = 0 then Inl NonFinite
       else bindE (array_set cache i (x / total)) (areaCache_normalize n is)))"

definition computeAreaCache :: "TriangleMesh3 \<Rightarrow> error + TriangleMesh3" where
  "computeAreaCache m =
     bindE (array_set (resize (m_areaCache m) (numberOfFaces m + 1) 0) 0 0) (\<lambda>cache.
     bindE (areaCache_accumulate m [1..<length cache] cache) (\<lambda>cache'.
     bindE (areaCache_normalize (numberOfFaces m) [1..<length cache'] cache') (\<lambda>cache''.
     Inr (m\<lparr>m_areaCache := cache''\<rparr>))))"

text \<open>\<open>computeAreaCacheP\<close> is the same body on the \<open>mutable\<close> cache of a const mesh.\<close>

definition computeAreaCacheP :: "TriangleMesh3 \<Rightarrow> error + TriangleMesh3" where
  "computeAreaCacheP m =
     bindE (array_set (resize (m_areaCache m) (numberOfFaces m + 1) 0) 0 0) (\<lambda>cache.
     bindE (areaCache_accumulate m [1..<length cache] cache) (\<lambda>cache'.
     bindE (areaCache_normalize (numberOfFaces m) [1..<length cache'] cache') (\<lambda>cache''.
     Inr (m\<lparr>m_areaCache := cache''\<rparr>))))"

text \<open>
  \<open>std::lower_bound\<close> over the whole cache, as the standard library writes it: a binary
  search that halves the range \<open>[first, first + len)\<close>. The value is the index
  \<open>ptr - _areaCache.data()\<close>. Every element read lies in the range searched.
\<close>

function lower_bound_loop :: "real list \<Rightarrow> real \<Rightarrow> nat \<Rightarrow> nat \<Rightarrow> nat" where
  "lower_bound_loop xs val first len =
     (if 0 < len
      then (if xs ! (first + len div 2) < val
            then lower_bound_loop xs val (first + len div 2 + 1) (len - len div 2 - 1)
            else lower_bound_loop xs val first (len div 2))
      else first)"
  by pat_completeness auto
termination
  by (relation "measure (\<lambda>(xs, val, first, len). len)") auto

definition lower_bound :: "real list \<Rightarrow> real \<Rightarrow> nat" where
  "lower_bound xs val = lower_bound_loop xs val 0 (length xs)"

text \<open>
  \<open>sample\<close>. The primitive's barycentric sampling is the parameter \<open>tsample\<close>; the
  result is the pair \<open>(*x, *n)\<close> and the mesh with its cache.
\<close>

definition sample ::
  "(Triangle3 \<Rightarrow> real \<Rightarrow> real \<Rightarrow> Vector3D \<times> Vector3D) \<Rightarrow> TriangleMesh3 \<Rightarrow> real \<Rightarrow> real \<Rightarrow> real
     \<Rightarrow> error + ((Vector3D \<times> Vector3D) \<times> TriangleMesh3)" where
  "sample tsample m u1 u2 u3 =
     bindE (if length (m_areaCache m) \<noteq> numberOfFaces m + 1
            then computeAreaCacheP m else Inr m) (\<lambda>m'.
       let ptr = lower_bound (m_areaCache m') u1;
           offset = (if 0 < ptr then ptr - 1 else 0)
       in bindE (triangle m' offset) (\<lambda>tri. Inr (tsample tri u2 u3, m')))"

text \<open>The running total of the areas of the first \<open>i\<close> faces.\<close>

definition prefixArea :: "Triangle3 list \<Rightarrow> nat \<Rightarrow> real" where
  "prefixArea tris i = sum_list (map area (take i tris))"

section \<open>Writing the interchange format\<close>

text \<open>
  The output stream is the string written so far. How a \<open>double\<close> prints, a NaN
  included, is the parameter \<open>sd\<close>; a \<open>size_t\<close> prints in decimal without padding; \<open>std::endl\<close> is a
  newline.
\<close>

definition digit_char :: "nat \<Rightarrow> char" where
  "digit_char d = ''0123456789'' ! d"

function showNat :: "nat \<Rightarrow> string" where
  "showNat n = (if n < 10 then [digit_char n] else showNat (n div 10) @ [digit_char (n mod 10)])"
  by pat_completeness auto
termination
  by (relation "measure (\<lambda>n. n)") auto

definition size_t_out :: "size_t \<Rightarrow> string" where
  "size_t_out w = showNat (unat w)"

definition std_endl :: string where
  "std_endl = [CHR 0x0A]"

definition Vector2D_out :: "(real option \<Rightarrow> string) \<Rightarrow> Vector2D \<Rightarrow> string" where
  "Vector2D_out sd v = sd (Some (ux v)) @ '' '' @ sd (Some (uy v))"

definition Vector3D_out :: "(real option \<Rightarrow> string) \<Rightarrow> Vector3D \<Rightarrow> string" where
  "Vector3D_out sd v = sd (Some (vx v)) @ '' '' @ sd (Some (vy v)) @ '' '' @ sd (Some (vz v))"

definition Vector3D_nan_out :: "(real option \<Rightarrow> string) \<Rightarrow> Vector3D option \<Rightarrow> string" where
  "Vector3D_nan_out sd v =
     sd (map_option vx v) @ '' '' @ sd (map_option vy v) @ '' '' @ sd (map_option vz v)"

fun writeObj_points :: "(real option \<Rightarrow> string) \<Rightarrow> string \<Rightarrow> Vector3D list \<Rightarrow> string" where
  "writeObj_points sd strm [] = strm"
| "writeObj_points sd strm (pt # pts) =
     writeObj_points sd (strm @ ''v '' @ Vector3D_out sd pt @ std_endl) pts"

fun writeObj_uvs :: "(real option \<Rightarrow> string) \<Rightarrow> string \<Rightarrow> Vector2D list \<Rightarrow> string" where
  "writeObj_uvs sd strm [] = strm"
| "writeObj_uvs sd strm (uv # rest) =
     writeObj_uvs sd (strm @ ''vt '' @ Vector2D_out sd uv @ std_endl) rest"

fun writeObj_normals ::
  "(real option \<Rightarrow> string) \<Rightarrow> string \<Rightarrow> Vector3D option list \<Rightarrow> string" where
  "writeObj_normals sd strm [] = strm"
| "writeObj_normals sd strm (n # ns) =
     writeObj_normals sd (strm @ ''vn '' @ Vector3D_nan_out sd n @ std_endl) ns"

text \<open>The inner loop over \<open>j\<close> of one face line, and the loop over the faces.\<close>

fun writeObj_face_vertices :: "TriangleMesh3 \<Rightarrow> nat \<Rightarrow> nat list \<Rightarrow> string \<Rightarrow> error + string" where
  "writeObj_face_vertices m i [] strm = Inr strm"
| "writeObj_face_vertices m i (j # js) strm =
     bindE (array_at (m_pointIndices m) i) (\<lambda>pf.
       let strm1 = strm @ size_t_out (at3 pf j + 1);
           strm2 = (if hasNormals m \<or> hasUvs m then strm1 @ ''/'' else strm1)
       in bindE (if hasUvs m
                 then bindE (array_at (m_uvIndices m) i)
                        (\<lambda>tf. Inr (strm2 @ size_t_out (at3 tf j + 1)))
                 else Inr strm2) (\<lambda>strm3.
          bindE (if hasNormals m
                 then bindE (array_at (m_normalIndices m) i)
                        (\<lambda>nf. Inr (strm3 @ ''/'' @ size_t_out (at3 nf j + 1)))
                 else Inr strm3) (\<lambda>strm4.
          writeObj_face_vertices m i js (strm4 @ '' ''))))"

fun writeObj_faces :: "TriangleMesh3 \<Rightarrow> nat list \<Rightarrow> string \<Rightarrow> error + string" where
  "writeObj_faces m [] strm = Inr strm"
| "writeObj_faces m (i # is) strm =
     bindE (writeObj_face_vertices m i [0..<3] (strm @ ''f '')) (\<lambda>strm'.
       writeObj_faces m is (strm' @ std_endl))"

definition writeObj :: "(real option \<Rightarrow> string) \<Rightarrow> TriangleMesh3 \<Rightarrow> string \<Rightarrow> error + string" where
  "writeObj sd m strm =
     writeObj_faces m [0..<numberOfFaces m]
       (writeObj_normals sd
          (writeObj_uvs sd (writeObj_points sd strm (m_points m)) (m_uvs m))
          (m_normals m))"

text \<open>
  The lines in the spec's words: \<open>v x y z\<close>, \<open>vt u v\<close>, \<open>vn x y z\<close>, and a face line
  \<open>f\<close> with three vertices in declaration order, each a 1-based position index, then
  the uv and normal slots when the mesh has uvs respectively normals.
\<close>

definition obj_point_line :: "(real option \<Rightarrow> string) \<Rightarrow> Vector3D \<Rightarrow> string" where
  "obj_point_line sd v =
     ''v '' @ sd (Some (vx v)) @ '' '' @ sd (Some (vy v)) @ '' '' @ sd (Some (vz v))
     @ [CHR 0x0A]"

definition obj_uv_line :: "(real option \<Rightarrow> string) \<Rightarrow> Vector2D \<Rightarrow> string" where
  "obj_uv_line sd t = ''vt '' @ sd (Some (ux t)) @ '' '' @ sd (Some (uy t)) @ [CHR 0x0A]"

definition obj_normal_line :: "(real option \<Rightarrow> string) \<Rightarrow> Vector3D option \<Rightarrow> string" where
  "obj_normal_line sd v =
     ''vn '' @ sd (map_option vx v) @ '' '' @ sd (map_option vy v) @ '' ''
     @ sd (map_option vz v) @ [CHR 0x0A]"

definition obj_face_vertex :: "TriangleMesh3 \<Rightarrow> nat \<Rightarrow> nat \<Rightarrow> string" where
  "obj_face_vertex m i j =
     showNat (unat (at3 (m_pointIndices m ! i) j) + 1)
     @ (if hasNormals m \<or> hasUvs m then ''/'' else [])
     @ (if hasUvs m then showNat (unat (at3 (m_uvIndices m ! i) j) + 1) else [])
     @ (if hasNormals m then ''/'' @ showNat (unat (at3 (m_normalIndices m ! i) j) + 1) else [])
     @ '' ''"

definition obj_face_line :: "TriangleMesh3 \<Rightarrow> nat \<Rightarrow> string" where
  "obj_face_line m i =
     ''f '' @ obj_face_vertex m i 0 @ obj_face_vertex m i 1 @ obj_face_vertex m i 2
     @ [CHR 0x0A]"

text \<open>
  What \<open>writeObj\<close> needs of the mesh: a uv (normal) triple for every face when the mesh
  has uvs (normals), and no index equal to the largest \<open>size_t\<close>, whose successor
  wraps to 0.
\<close>

definition writable :: "TriangleMesh3 \<Rightarrow> bool" where
  "writable m =
     ((hasUvs m \<longrightarrow> numberOfFaces m \<le> length (m_uvIndices m))
      \<and> (hasNormals m \<longrightarrow> numberOfFaces m \<le> length (m_normalIndices m))
      \<and> (\<forall>f \<in> set (m_pointIndices m) \<union> set (m_uvIndices m) \<union> set (m_normalIndices m).
            at3 f 0 + 1 \<noteq> 0 \<and> at3 f 1 + 1 \<noteq> 0 \<and> at3 f 2 + 1 \<noteq> 0))"

section \<open>Flat normals\<close>

text \<open>
  \<open>setFaceNormal\<close>. The loop materialises each face from the mesh as it stands, normals
  already overwritten included, takes its flat normal and stores it at the three
  position indices \<open>f.x\<close>, \<open>f.y\<close>, \<open>f.z\<close> of the face.
\<close>

fun setFaceNormal_loop :: "nat list \<Rightarrow> TriangleMesh3 \<Rightarrow> error + TriangleMesh3" where
  "setFaceNormal_loop [] m = Inr m"
| "setFaceNormal_loop (i # is) m =
     bindE (triangle m i) (\<lambda>tri.
       let n = faceNormal tri
       in bindE (array_at (m_pointIndices m) i) (\<lambda>f.
          bindE (array_set (m_normals m) (unat (at3 f 0)) n) (\<lambda>normals1.
          bindE (array_set normals1 (unat (at3 f 1)) n) (\<lambda>normals2.
          bindE (array_set normals2 (unat (at3 f 2)) n) (\<lambda>normals3.
          setFaceNormal_loop is (m\<lparr>m_normals := normals3\<rparr>))))))"

definition setFaceNormal :: "TriangleMesh3 \<Rightarrow> error + TriangleMesh3" where
  "setFaceNormal m =
     (let m' = m\<lparr>m_normals := resize (m_normals m) (length (m_points m))
                                  (Some (Vector3D 0 0 0)),
                 m_normalIndices := m_pointIndices m\<rparr>
      in setFaceNormal_loop [0..<numberOfFaces m'] m')"

text \<open>Vertex \<open>v\<close> is a corner of the face with position indices \<open>f\<close>.\<close>

definition cornerOf :: "Point3UI \<Rightarrow> nat \<Rightarrow> bool" where
  "cornerOf f v = (unat (at3 f 0) = v \<or> unat (at3 f 1) = v \<or> unat (at3 f 2) = v)"

section \<open>Angle-weighted normals\<close>

text \<open>
  Modelled from the spec: \<open>clamp\<close> belongs to a header outside the files at hand; the
  spec uses it as \<open>clamp(dot, -1, 1)\<close>, the value brought into \<open>[-1, 1]\<close> by two
  comparisons. A NaN fails both comparisons and comes back as it is.
\<close>

definition clamp :: "real \<Rightarrow> real \<Rightarrow> real \<Rightarrow> real" where
  "clamp val low high = (if val < low then low else if val > high then high else val)"

definition clamp_nan :: "real option \<Rightarrow> real \<Rightarrow> real \<Rightarrow> real option" where
  "clamp_nan val low high = map_option (\<lambda>x. clamp x low high) val"

text \<open>\<open>std::acos\<close> is a NaN outside \<open>[-1, 1]\<close> and at a NaN.\<close>

definition std_acos :: "real option \<Rightarrow> real option" where
  "std_acos x =
     (case x of None \<Rightarrow> None
      | Some c \<Rightarrow> if - 1 \<le> c \<and> c \<le> 1 then Some (arccos c) else None)"

text \<open>
  The clamp is there for the rounding error of the vector arithmetic: in exact
  arithmetic the dot product of two normalized vectors never leaves \<open>[-1, 1]\<close>. The
  four vector operations of the corner computation, which belong to the vector header
  outside the files at hand, are therefore parameters of this function, so that what is
  proved of it holds whatever these operations round to. \<open>exactArith\<close> are the exact
  operations of the first section.
\<close>

record vector_arith =
  arith_sub :: "Vector3D \<Rightarrow> Vector3D \<Rightarrow> Vector3D option"
  arith_normalize :: "Vector3D option \<Rightarrow> Vector3D option"
  arith_cross :: "Vector3D option \<Rightarrow> Vector3D option \<Rightarrow> Vector3D option"
  arith_dot :: "Vector3D option \<Rightarrow> Vector3D option \<Rightarrow> real option"

definition exactArith :: vector_arith where
  "exactArith = \<lparr>arith_sub = (\<lambda>a b. Some (Vector3D_sub a b)), arith_normalize = normalize,
                  arith_cross = nan2 cross, arith_dot = nan2 dot\<rparr>"

text \<open>
  One corner, at \<open>p\<close> with the edges to \<open>q\<close> and \<open>r\<close>, in the order of the source:
  the two edges normalized, the normalized cross product, the clamped cosine and its
  angle.
\<close>

definition cornerAngleNormal ::
  "vector_arith \<Rightarrow> Vector3D \<Rightarrow> Vector3D \<Rightarrow> Vector3D \<Rightarrow> real option \<times> Vector3D option" where
  "cornerAngleNormal ar p q r =
     (let e0 = arith_normalize ar (arith_sub ar q p);
          e1 = arith_normalize ar (arith_sub ar r p);
          normal = arith_normalize ar (arith_cross ar e0 e1);
          cosangle = clamp_nan (arith_dot ar e0 e1) (- 1) 1;
          angle = std_acos cosangle
      in (angle, normal))"

text \<open>\<open>angleWeights[idx] += angle; pseudoNormals[idx] += angle*normal\<close>.\<close>

definition addCorner ::
  "real option list \<times> Vector3D option list \<Rightarrow> nat \<Rightarrow> real option \<times> Vector3D option
     \<Rightarrow> error + (real option list \<times> Vector3D option list)" where
  "addCorner st idx c =
     (case st of (angleWeights, pseudoNormals) \<Rightarrow> case c of (angle, normal) \<Rightarrow>
        bindE (array_at angleWeights idx) (\<lambda>w.
        bindE (array_set angleWeights idx (nan2 (+) w angle)) (\<lambda>angleWeights'.
        bindE (array_at pseudoNormals idx) (\<lambda>v.
        bindE (array_set pseudoNormals idx
                 (nan2 Vector3D_add v (nan2 Vector3D_scale angle normal)))
          (\<lambda>pseudoNormals'. Inr (angleWeights', pseudoNormals'))))))"

fun angleWeighted_loop ::
  "vector_arith \<Rightarrow> TriangleMesh3 \<Rightarrow> nat list \<Rightarrow> real option list \<times> Vector3D option list
     \<Rightarrow> error + (real option list \<times> Vector3D option list)" where
  "angleWeighted_loop ar m [] st = Inr st"
| "angleWeighted_loop ar m (i # is) st =
     bindE (array_at (m_pointIndices m) i) (\<lambda>idx.
     bindE (gather3 (m_points m) idx) (\<lambda>pts.
     bindE (addCorner st (unat (at3 idx 0))
              (cornerAngleNormal ar (at3 pts 0) (at3 pts 1) (at3 pts 2))) (\<lambda>st0.
     bindE (addCorner st0 (unat (at3 idx 1))
              (cornerAngleNormal ar (at3 pts 1) (at3 pts 2) (at3 pts 0))) (\<lambda>st1.
     bindE (addCorner st1 (unat (at3 idx 2))
              (cornerAngleNormal ar (at3 pts 2) (at3 pts 0) (at3 pts 1))) (\<lambda>st2.
     angleWeighted_loop ar m is st2)))))"

text \<open>
  The accumulation from the zeroed arrays, and the last loop, which divides
  \<open>pseudoNormals[i]\<close> by \<open>angleWeights[i]\<close> when \<open>angleWeights[i] > 0\<close>; each round
  touches its own element only. The two \<open>clear\<close> calls at the head of the function
  empty sequences that the loops do not read and that the last two statements replace.
\<close>

definition angleWeights_accumulated ::
  "vector_arith \<Rightarrow> TriangleMesh3 \<Rightarrow> error + (real option list \<times> Vector3D option list)" where
  "angleWeights_accumulated ar m =
     angleWeighted_loop ar m [0..<numberOfFaces m]
       (replicate (length (m_points m)) (Some 0),
        replicate (length (m_points m)) (Some (Vector3D 0 0 0)))"

definition divideByWeight :: "real option list \<Rightarrow> Vector3D option list \<Rightarrow> nat \<Rightarrow> Vector3D option" where
  "divideByWeight angleWeights pseudoNormals i =
     (case angleWeights ! i of
        None \<Rightarrow> pseudoNormals ! i
      | Some w \<Rightarrow> if w > 0 then Option.bind (pseudoNormals ! i) (\<lambda>p. Vector3D_div p w)
                  else pseudoNormals ! i)"

text \<open>\<open>std::swap(pseudoNormals, _normals)\<close> and the copy of the position faces.\<close>

definition setAngleWeightedVertexNormal :: "vector_arith \<Rightarrow> TriangleMesh3 \<Rightarrow> error + TriangleMesh3" where
  "setAngleWeightedVertexNormal ar m =
     bindE (angleWeights_accumulated ar m) (\<lambda>(angleWeights, pseudoNormals).
       Inr (m\<lparr>m_normals := map (divideByWeight angleWeights pseudoNormals)
                               [0..<length (m_points m)],
              m_normalIndices := m_pointIndices m\<rparr>))"

text \<open>
  The vocabulary of the statements about this function. Every position index of every
  face names a position. The dot product the clamp receives at a corner. The corners
  of the faces \<open>is\<close> that lie at vertex \<open>v\<close>, each with the angle and the normal
  computed for it, in the order in which the loop meets them; and the sum of the
  angles and of the angle-weighted normals of a list of corners, added up from zero
  from left to right as the loop does.
\<close>

definition positionsInRange :: "TriangleMesh3 \<Rightarrow> bool" where
  "positionsInRange m =
     (\<forall>f \<in> set (m_pointIndices m).
        unat (at3 f 0) < numberOfPoints m \<and> unat (at3 f 1) < numberOfPoints m
        \<and> unat (at3 f 2) < numberOfPoints m)"

definition cornerDot :: "vector_arith \<Rightarrow> Vector3D \<Rightarrow> Vector3D \<Rightarrow> Vector3D \<Rightarrow> real option" where
  "cornerDot ar p q r =
     arith_dot ar (arith_normalize ar (arith_sub ar q p)) (arith_normalize ar (arith_sub ar r p))"

definition faceCorners ::
  "vector_arith \<Rightarrow> TriangleMesh3 \<Rightarrow> nat \<Rightarrow> (nat \<times> real option \<times> Vector3D option) list" where
  "faceCorners ar m i =
     (let idx = m_pointIndices m ! i;
          p0 = m_points m ! unat (at3 idx 0);
          p1 = m_points m ! unat (at3 idx 1);
          p2 = m_points m ! unat (at3 idx 2)
      in [(unat (at3 idx 0), cornerAngleNormal ar p0 p1 p2),
          (unat (at3 idx 1), cornerAngleNormal ar p1 p2 p0),
          (unat (at3 idx 2), cornerAngleNormal ar p2 p0 p1)])"

definition cornersIn ::
  "vector_arith \<Rightarrow> TriangleMesh3 \<Rightarrow> nat list \<Rightarrow> nat \<Rightarrow> (real option \<times> Vector3D option) list" where
  "cornersIn ar m is v =
     map snd (filter (\<lambda>c. fst c = v) (concat (map (faceCorners ar m) is)))"

definition cornersAt ::
  "vector_arith \<Rightarrow> TriangleMesh3 \<Rightarrow> nat \<Rightarrow> (real option \<times> Vector3D option) list" where
  "cornersAt ar m v = cornersIn ar m [0..<numberOfFaces m] v"

definition angleSum :: "real option \<Rightarrow> (real option \<times> Vector3D option) list \<Rightarrow> real option" where
  "angleSum w cs = foldl (\<lambda>acc c. nan2 (+) acc (fst c)) w cs"

definition weightedSum ::
  "Vector3D option \<Rightarrow> (real option \<times> Vector3D option) list \<Rightarrow> Vector3D option" where
  "weightedSum s cs =
     foldl (\<lambda>acc c. nan2 Vector3D_add acc (nan2 Vector3D_scale (fst c) (snd c))) s cs"

section \<open>Concrete inputs\<close>

text \<open>
  Meshes and stand-ins for the primitive's capabilities at which the theorems below are
  instantiated. \<open>twoFaces\<close> has two congruent faces without normals or uvs, at the same
  distance from the origin; \<open>firstVertex\<close> answers every closest-point query with the
  triangle's first vertex.
\<close>

definition twoFaces :: TriangleMesh3 where
  "twoFaces = \<lparr>m_points = [Vector3D 1 0 0, Vector3D 1 1 0, Vector3D 1 0 1,
                            Vector3D 0 1 0, Vector3D 0 2 0, Vector3D 0 1 1],
               m_normals = [], m_uvs = [],
               m_pointIndices = [(0, 1, 2), (3, 4, 5)],
               m_normalIndices = [], m_uvIndices = [], m_areaCache = []\<rparr>"

definition noFaces :: TriangleMesh3 where
  "noFaces = \<lparr>m_points = [Vector3D 1 0 0, Vector3D 1 1 0, Vector3D 1 0 1],
              m_normals = [], m_uvs = [], m_pointIndices = [],
              m_normalIndices = [], m_uvIndices = [], m_areaCache = []\<rparr>"

definition firstVertex :: "Triangle3 \<Rightarrow> Vector3D \<Rightarrow> Vector3D" where
  "firstVertex tri p = fst (points tri)"

text \<open>
  \<open>hitAlongX\<close> stands in for the primitive's intersection: a ray along the x axis from
  \<open>x = ray\<close> meets a triangle at its first vertex when that vertex is not behind the
  origin of the ray, and otherwise leaves \<open>t\<close> at \<open>DBL_MAX\<close>.
\<close>

definition hitAlongX :: "Triangle3 \<Rightarrow> real \<Rightarrow> SurfaceRayIntersection3" where
  "hitAlongX tri ray =
     (let p = fst (points tri)
      in \<lparr>isect_point = p, isect_normal = Vector3D 1 0 0,
          isect_t = (if vx p < ray then DBL_MAX else vx p - ray),
          isect_distance = (if vx p < ray then DBL_MAX else vx p - ray)\<rparr>)"

definition callerRecord :: SurfaceRayIntersection3 where
  "callerRecord = \<lparr>isect_point = Vector3D 7 7 7, isect_normal = Vector3D 0 0 1,
                    isect_t = 42, isect_distance = 42\<rparr>"

text \<open>Two sequences of face-append calls from an empty mesh, and the meshes they end in.\<close>

definition mixedCalls :: "face_call list" where
  "mixedCalls = [AddPointNormalFace (0, 1, 2) (0, 1, 2), AddPointFace (0, 1, 2)]"

definition mixedResult :: TriangleMesh3 where
  "mixedResult = \<lparr>m_points = [], m_normals = [], m_uvs = [],
      m_pointIndices = [(0, 1, 2), (0, 1, 2)], m_normalIndices = [(0, 1, 2)],
      m_uvIndices = [], m_areaCache = []\<rparr>"

definition normalCalls :: "face_call list" where
  "normalCalls = [AddPointNormalFace (0, 1, 2) (0, 1, 2), AddPointNormalFace (2, 1, 3) (2, 1, 3)]"

definition normalResult :: TriangleMesh3 where
  "normalResult = \<lparr>m_points = [], m_normals = [], m_uvs = [],
      m_pointIndices = [(0, 1, 2), (2, 1, 3)], m_normalIndices = [(0, 1, 2), (2, 1, 3)],
      m_uvIndices = [], m_areaCache = []\<rparr>"

text \<open>A stand-in for the primitive's sampling: the first vertex and a fixed normal.\<close>

definition sampleFirstVertex :: "Triangle3 \<Rightarrow> real \<Rightarrow> real \<Rightarrow> Vector3D \<times> Vector3D" where
  "sampleFirstVertex tri u2 u3 = (fst (points tri), Vector3D 0 0 1)"

text \<open>
  A triangle with one texture coordinate and one normal shared by its corners, and a
  printer for coordinates that are whole numbers.
\<close>

definition showWhole :: "real option \<Rightarrow> string" where
  "showWhole x = (case x of None \<Rightarrow> ''nan'' | Some y \<Rightarrow> showNat (nat \<lfloor>y\<rfloor>))"

definition texturedTriangle :: TriangleMesh3 where
  "texturedTriangle = \<lparr>m_points = [Vector3D 0 0 0, Vector3D 1 0 0, Vector3D 0 1 0],
      m_normals = [Some (Vector3D 0 0 1)], m_uvs = [Vector2D 0 0],
      m_pointIndices = [(0, 1, 2)], m_normalIndices = [(0, 0, 0)],
      m_uvIndices = [(0, 0, 0)], m_areaCache = []\<rparr>"

text \<open>Two faces with different flat normals that share the vertices 0 and 1.\<close>

definition sharedEdge :: TriangleMesh3 where
  "sharedEdge = \<lparr>m_points = [Vector3D 0 0 0, Vector3D 1 0 0, Vector3D 0 1 0, Vector3D 0 0 1],
      m_normals = [], m_uvs = [], m_pointIndices = [(0, 1, 2), (0, 3, 1)],
      m_normalIndices = [], m_uvIndices = [], m_areaCache = []\<rparr>"

text \<open>
  A right triangle with sides 3, 4 and 5 beside a vertex of no face, and a face whose
  three vertices lie on one line.
\<close>

definition loneVertex :: TriangleMesh3 where
  "loneVertex = \<lparr>m_points = [Vector3D 0 0 0, Vector3D 3 0 0, Vector3D 0 4 0, Vector3D 0 0 9],
      m_normals = [Some (Vector3D 1 0 0)], m_uvs = [], m_pointIndices = [(0, 1, 2)],
      m_normalIndices = [(0, 0, 0)], m_uvIndices = [], m_areaCache = []\<rparr>"

definition collinearFace :: TriangleMesh3 where
  "collinearFace = \<lparr>m_points = [Vector3D 0 0 0, Vector3D 1 0 0, Vector3D 2 0 0],
      m_normals = [], m_uvs = [], m_pointIndices = [(0, 1, 2)],
      m_normalIndices = [], m_uvIndices = [], m_areaCache = []\<rparr>"

text \<open>
  A stand-in for an arithmetic that rounds: the exact one but for a dot product that
  comes out \<open>1 / 256\<close> too large. In the face \<open>nearlyCollinear\<close> the edges at vertex 0
  enclose a small angle, with the exact cosine \<open>312 / 313\<close>.
\<close>

definition overshootArith :: vector_arith where
  "overshootArith =
     exactArith\<lparr>arith_dot := (\<lambda>a b. map_option (\<lambda>d. d + 1 / 256) (nan2 dot a b))\<rparr>"

definition nearlyCollinear :: TriangleMesh3 where
  "nearlyCollinear = \<lparr>m_points = [Vector3D 0 0 0, Vector3D 1 0 0, Vector3D 312 25 0],
      m_normals = [], m_uvs = [], m_pointIndices = [(0, 1, 2)],
      m_normalIndices = [], m_uvIndices = [], m_areaCache = []\<rparr>"

section \<open>Properties\<close>

subsection \<open>Scanning for the first minimum\<close>

lemma first_min_scan_first_min:
  assumes "st # fs = pre @ c # post"
    and "\<forall>x\<in>set pre. snd c < snd x"
    and "\<forall>x\<in>set post. snd c \<le> snd x"
  shows "first_min_scan st fs = c"
  using assms
proof (induction fs arbitrary: st pre post)
  case Nil
  then show ?case by (cases pre) auto
next
  case (Cons f fs)
  show ?case
  proof (cases pre)
    case Nil
    with Cons.prems(1) have c: "c = st" and post: "post = f # fs" by auto
    from Cons.prems(3) post c have "snd st \<le> snd f" by simp
    then have "\<not> snd f < snd st" by (simp add: not_less)
    moreover have "first_min_scan st fs = c"
      by (rule Cons.IH [of st "[]"]) (use c post Cons.prems(3) in auto)
    ultimately show ?thesis by simp
  next
    case pre: (Cons a pre')
    with Cons.prems(1) have a: "a = st" and tl: "f # fs = pre' @ c # post" by auto
    show ?thesis
    proof (cases "snd f < snd st")
      case True
      have "first_min_scan f fs = c"
      proof (cases pre')
        case Nil
        with tl have "c = f" "post = fs" by auto
        then show ?thesis
          by (intro Cons.IH [of f "[]"]) (use Cons.prems(3) in auto)
      next
        case (Cons b pre'')
        with tl have "f # fs = (f # pre'') @ c # post" by auto
        then show ?thesis
          by (rule Cons.IH) (use Cons.prems(2,3) pre Cons tl in auto)
      qed
      then show ?thesis using True by simp
    next
      case False
      have "pre' \<noteq> []"
      proof
        assume "pre' = []"
        with tl have "c = f" by simp
        with Cons.prems(2) pre a False show False by auto
      qed
      then obtain b pre'' where pre': "pre' = b # pre''" by (cases pre') auto
      with tl have "st # fs = (st # pre'') @ c # post" by auto
      then have "first_min_scan st fs = c"
        by (rule Cons.IH) (use Cons.prems(2,3) pre a pre' in auto)
      then show ?thesis using False by simp
    qed
  qed
qed

text \<open>The same fact with the first minimum named by its index.\<close>

lemma first_min_scan_index:
  assumes "k < length cs"
    and "\<forall>j<length cs. snd (cs ! k) \<le> snd (cs ! j)"
    and "\<forall>j<k. snd (cs ! k) < snd (cs ! j)"
    and "cs = st # fs"
  shows "first_min_scan st fs = cs ! k"
proof (rule first_min_scan_first_min)
  show "st # fs = take k cs @ cs ! k # drop (Suc k) cs"
    using id_take_nth_drop [OF assms(1)] assms(4) by simp
  show "\<forall>x\<in>set (take k cs). snd (cs ! k) < snd x"
  proof
    fix x assume "x \<in> set (take k cs)"
    then obtain j where "j < k" "x = cs ! j"
      using assms(1) by (auto simp: in_set_conv_nth)
    with assms(3) show "snd (cs ! k) < snd x" by simp
  qed
  show "\<forall>x\<in>set (drop (Suc k) cs). snd (cs ! k) \<le> snd x"
  proof
    fix x assume "x \<in> set (drop (Suc k) cs)"
    then obtain i where i: "i < length (drop (Suc k) cs)" "drop (Suc k) cs ! i = x"
      by (auto simp: in_set_conv_nth)
    then have "Suc k + i < length cs" "x = cs ! (Suc k + i)"
      by auto
    with assms(2) show "snd (cs ! k) \<le> snd x" by simp
  qed
qed

subsection \<open>Closest point\<close>

lemma faceClosestPoint_Inr:
  assumes "map (triangle m) is = map Inr tris"
  shows "map (faceClosestPoint tcp m p) is =
         map Inr (map (\<lambda>tri. (tcp tri p, lengthSquared (Vector3D_sub p (tcp tri p)))) tris)"
  using assms
  by (induction "is" arbitrary: tris) (auto simp: faceClosestPoint_def Let_def)

lemma closestPoint_loop_scan:
  assumes "map (faceClosestPoint tcp m p) is = map Inr fs"
  shows "closestPoint_loop tcp m p is st = Inr (first_min_scan st fs)"
  using assms
proof (induction "is" arbitrary: st fs)
  case Nil
  then show ?case by simp
next
  case (Cons i "is")
  then obtain f fs' where "fs = f # fs'" "faceClosestPoint tcp m p i = Inr f"
    "map (faceClosestPoint tcp m p) is = map Inr fs'"
    by (cases fs) auto
  with Cons.IH show ?case
    by (cases st; cases f) simp
qed

lemma triangle_twoFaces_0:
  "triangle twoFaces 0 = Inr \<lparr>points = (Vector3D 1 0 0, Vector3D 1 1 0, Vector3D 1 0 1),
       normals = (Some (Vector3D 1 0 0), Some (Vector3D 1 0 0), Some (Vector3D 1 0 0)),
       uvs = (Vector2D 0 0, Vector2D 0 0, Vector2D 0 0)\<rparr>"
  by (simp add: triangle_def twoFaces_def array_at_def gather3_def hasUvs_def hasNormals_def
      faceNormal_def normalize_def Vector3D_div_def cross_def Vector3D_sub_def length3_def
      lengthSquared_def Let_def)

lemma triangle_twoFaces_1:
  "triangle twoFaces 1 = Inr \<lparr>points = (Vector3D 0 1 0, Vector3D 0 2 0, Vector3D 0 1 1),
       normals = (Some (Vector3D 1 0 0), Some (Vector3D 1 0 0), Some (Vector3D 1 0 0)),
       uvs = (Vector2D 0 0, Vector2D 0 0, Vector2D 0 0)\<rparr>"
  by (simp add: triangle_def twoFaces_def array_at_def gather3_def hasUvs_def hasNormals_def
      faceNormal_def normalize_def Vector3D_div_def cross_def Vector3D_sub_def length3_def
      lengthSquared_def Let_def)

lemma DBL_MAX_gt: "1 < DBL_MAX"
  by (simp add: DBL_MAX_def)

text \<open>
  C1. \<open>closestPoint\<close> scans the faces in index order, takes each face triangle's closest
  point to the query point and its squared Euclidean distance, and replaces the running
  minimum only by a strictly smaller distance. The candidates are the scan's initial
  value followed by the faces' results; the point returned is that of the candidate of
  least distance, and among candidates of equal least distance the first one.
\<close>

theorem closestPoint_first_minimum:
  assumes "map (triangle m) [0..<numberOfFaces m] = map Inr tris"
    and "cs = (Vector3D DBL_MAX DBL_MAX DBL_MAX, DBL_MAX) #
              map (\<lambda>tri. (tcp tri p, lengthSquared (Vector3D_sub p (tcp tri p)))) tris"
    and "k < length cs"
    and "\<forall>j<length cs. snd (cs ! k) \<le> snd (cs ! j)"
    and "\<forall>j<k. snd (cs ! k) < snd (cs ! j)"
  shows "closestPoint tcp m p = Inr (fst (cs ! k))"
proof -
  have "closestPoint_loop tcp m p [0..<numberOfFaces m]
          (Vector3D DBL_MAX DBL_MAX DBL_MAX, DBL_MAX)
        = Inr (first_min_scan (Vector3D DBL_MAX DBL_MAX DBL_MAX, DBL_MAX)
            (map (\<lambda>tri. (tcp tri p, lengthSquared (Vector3D_sub p (tcp tri p)))) tris))"
    by (rule closestPoint_loop_scan) (rule faceClosestPoint_Inr [OF assms(1)])
  also have "first_min_scan (Vector3D DBL_MAX DBL_MAX DBL_MAX, DBL_MAX)
            (map (\<lambda>tri. (tcp tri p, lengthSquared (Vector3D_sub p (tcp tri p)))) tris) = cs ! k"
    by (rule first_min_scan_index [OF assms(3,4,5,2)])
  finally show ?thesis
    by (simp add: closestPoint_def split: prod.splits)
qed

text \<open>
  Both faces of \<open>twoFaces\<close> are at squared distance 1 from the origin under
  \<open>firstVertex\<close>: the result is the point of face 0, candidate 1 after the initial value.
\<close>

theorem closestPoint_first_minimum_witness:
  "closestPoint firstVertex twoFaces (Vector3D 0 0 0) = Inr (Vector3D 1 0 0)"
  using closestPoint_first_minimum [of twoFaces
      "[\<lparr>points = (Vector3D 1 0 0, Vector3D 1 1 0, Vector3D 1 0 1),
       normals = (Some (Vector3D 1 0 0), Some (Vector3D 1 0 0), Some (Vector3D 1 0 0)),
       uvs = (Vector2D 0 0, Vector2D 0 0, Vector2D 0 0)\<rparr>,
       \<lparr>points = (Vector3D 0 1 0, Vector3D 0 2 0, Vector3D 0 1 1),
       normals = (Some (Vector3D 1 0 0), Some (Vector3D 1 0 0), Some (Vector3D 1 0 0)),
       uvs = (Vector2D 0 0, Vector2D 0 0, Vector2D 0 0)\<rparr>]"
      "[(Vector3D DBL_MAX DBL_MAX DBL_MAX, DBL_MAX), (Vector3D 1 0 0, 1), (Vector3D 0 1 0, 1)]"
      firstVertex "Vector3D 0 0 0" 1]
    triangle_twoFaces_0 triangle_twoFaces_1 DBL_MAX_gt
  by (simp add: numberOfFaces_def twoFaces_def upt_rec firstVertex_def lengthSquared_def
      Vector3D_sub_def less_Suc_eq)

text \<open>
  C10. On a mesh with no faces the three scans never enter their loop bodies and return
  their initial values: \<open>closestPoint\<close> the point \<open>(DBL_MAX, DBL_MAX, DBL_MAX)\<close>,
  \<open>closestDistance\<close> the value \<open>DBL_MAX\<close>, \<open>actualClosestNormal\<close> the vector
  \<open>(1, 0, 0)\<close>, whatever the query point.
\<close>

theorem empty_mesh_sentinels:
  assumes "numberOfFaces m = 0"
  shows "closestPoint tcp m p = Inr (Vector3D DBL_MAX DBL_MAX DBL_MAX)
       \<and> closestDistance tcd m p = Inr DBL_MAX
       \<and> actualClosestNormal tcp tcn m p = Inr (Vector3D 1 0 0)"
  using assms by (simp add: closestPoint_def closestDistance_def actualClosestNormal_def)

theorem empty_mesh_sentinels_witness:
  "closestPoint firstVertex noFaces (Vector3D 0 0 1) = Inr (Vector3D DBL_MAX DBL_MAX DBL_MAX)
   \<and> closestDistance (\<lambda>tri p. 0) noFaces (Vector3D 0 0 1) = Inr DBL_MAX
   \<and> actualClosestNormal firstVertex firstVertex noFaces (Vector3D 0 0 1)
       = Inr (Vector3D 1 0 0)"
proof -
  have "numberOfFaces noFaces = 0"
    by (simp add: numberOfFaces_def noFaces_def)
  then show ?thesis
    by (rule empty_mesh_sentinels)
qed

subsection \<open>Closest intersection\<close>

lemma getClosestIntersection_loop_scan:
  assumes "map (triangle m) is = map Inr tris"
  shows "getClosestIntersection_loop tgi m ray is st
         = Inr (first_min_scan st (map (\<lambda>tri. (tgi tri ray, isect_t (tgi tri ray))) tris))"
  using assms
proof (induction "is" arbitrary: st tris)
  case Nil
  then show ?case by simp
next
  case (Cons i "is")
  then obtain tri tris' where "tris = tri # tris'" "triangle m i = Inr tri"
    "map (triangle m) is = map Inr tris'"
    by (cases tris) auto
  with Cons.IH show ?case
    by (cases st) (simp add: Let_def)
qed

text \<open>
  C4. \<open>getClosestIntersection\<close> scans every face. A face counts as intersected when the
  record the primitive filled has a ray parameter \<open>t\<close> below the loop's initial value
  \<open>DBL_MAX\<close>. If no face is, the caller's record comes back as it was, every field
  included. Otherwise the caller's record is the record of the face of least \<open>t\<close>, the
  first such face in index order.
\<close>

theorem getClosestIntersection_minimal_or_untouched:
  assumes "map (triangle m) [0..<numberOfFaces m] = map Inr tris"
    and "recs = map (\<lambda>tri. tgi tri ray) tris"
  shows "((\<forall>r\<in>set recs. DBL_MAX \<le> isect_t r) \<longrightarrow>
            getClosestIntersection tgi m ray out = Inr out)
       \<and> (\<forall>k<length recs. isect_t (recs ! k) < DBL_MAX \<longrightarrow>
            (\<forall>j<length recs. isect_t (recs ! k) \<le> isect_t (recs ! j)) \<longrightarrow>
            (\<forall>j<k. isect_t (recs ! k) < isect_t (recs ! j)) \<longrightarrow>
            getClosestIntersection tgi m ray out = Inr (recs ! k))"
proof -
  define fs where "fs = map (\<lambda>tri. (tgi tri ray, isect_t (tgi tri ray))) tris"
  define cs where "cs = (out, DBL_MAX) # fs"
  have loop: "getClosestIntersection_loop tgi m ray [0..<numberOfFaces m] (out, DBL_MAX)
              = Inr (first_min_scan (out, DBL_MAX) fs)"
    unfolding fs_def by (rule getClosestIntersection_loop_scan [OF assms(1)])
  have len: "length cs = Suc (length recs)"
    by (simp add: cs_def fs_def assms(2))
  have nth: "cs ! Suc j = (recs ! j, isect_t (recs ! j))" if "j < length recs" for j
    using that by (simp add: cs_def fs_def assms(2))
  have none: "getClosestIntersection tgi m ray out = Inr out"
    if "\<forall>r\<in>set recs. DBL_MAX \<le> isect_t r"
  proof -
    have "first_min_scan (out, DBL_MAX) fs = cs ! 0"
    proof (rule first_min_scan_index)
      show "0 < length cs" by (simp add: cs_def)
      show "\<forall>j<length cs. snd (cs ! 0) \<le> snd (cs ! j)"
      proof (intro allI impI)
        fix j assume "j < length cs"
        then show "snd (cs ! 0) \<le> snd (cs ! j)"
          using that nth len by (cases j) (auto simp: cs_def)
      qed
      show "\<forall>j<0. snd (cs ! 0) < snd (cs ! j)" by simp
      show "cs = (out, DBL_MAX) # fs" by (simp add: cs_def)
    qed
    with loop show ?thesis by (simp add: getClosestIntersection_def cs_def)
  qed
  have some: "getClosestIntersection tgi m ray out = Inr (recs ! k)"
    if k: "k < length recs" and lt: "isect_t (recs ! k) < DBL_MAX"
      and le: "\<forall>j<length recs. isect_t (recs ! k) \<le> isect_t (recs ! j)"
      and first: "\<forall>j<k. isect_t (recs ! k) < isect_t (recs ! j)" for k
  proof -
    have "first_min_scan (out, DBL_MAX) fs = cs ! Suc k"
    proof (rule first_min_scan_index)
      show "Suc k < length cs" using k len by simp
      show "\<forall>j<length cs. snd (cs ! Suc k) \<le> snd (cs ! j)"
      proof (intro allI impI)
        fix j assume "j < length cs"
        then show "snd (cs ! Suc k) \<le> snd (cs ! j)"
          using k lt le nth len by (cases j) (auto simp: cs_def)
      qed
      show "\<forall>j<Suc k. snd (cs ! Suc k) < snd (cs ! j)"
      proof (intro allI impI)
        fix j assume "j < Suc k"
        then show "snd (cs ! Suc k) < snd (cs ! j)"
          using k lt first nth by (cases j) (auto simp: cs_def)
      qed
      show "cs = (out, DBL_MAX) # fs" by (simp add: cs_def)
    qed
    with loop nth [OF k] show ?thesis by (simp add: getClosestIntersection_def)
  qed
  from none some show ?thesis by blast
qed

text \<open>
  From \<open>x = 2\<close> the ray misses both faces of \<open>twoFaces\<close>; from \<open>x = 0\<close> it meets face 0
  at \<open>t = 1\<close> and face 1 at \<open>t = 0\<close>.
\<close>

theorem getClosestIntersection_minimal_or_untouched_witness:
  "getClosestIntersection hitAlongX twoFaces 2 callerRecord = Inr callerRecord
   \<and> getClosestIntersection hitAlongX twoFaces 0 callerRecord
       = Inr \<lparr>isect_point = Vector3D 0 1 0, isect_normal = Vector3D 1 0 0,
              isect_t = 0, isect_distance = 0\<rparr>"
proof -
  let ?tris = "[\<lparr>points = (Vector3D 1 0 0, Vector3D 1 1 0, Vector3D 1 0 1),
       normals = (Some (Vector3D 1 0 0), Some (Vector3D 1 0 0), Some (Vector3D 1 0 0)),
       uvs = (Vector2D 0 0, Vector2D 0 0, Vector2D 0 0)\<rparr>,
       \<lparr>points = (Vector3D 0 1 0, Vector3D 0 2 0, Vector3D 0 1 1),
       normals = (Some (Vector3D 1 0 0), Some (Vector3D 1 0 0), Some (Vector3D 1 0 0)),
       uvs = (Vector2D 0 0, Vector2D 0 0, Vector2D 0 0)\<rparr>]"
  have tris: "map (triangle twoFaces) [0..<numberOfFaces twoFaces] = map Inr ?tris"
    using triangle_twoFaces_0 triangle_twoFaces_1
    by (simp add: numberOfFaces_def twoFaces_def upt_rec)
  have miss: "getClosestIntersection hitAlongX twoFaces 2 callerRecord = Inr callerRecord"
    using getClosestIntersection_minimal_or_untouched
      [OF tris refl, of hitAlongX 2 callerRecord, THEN conjunct1]
    by (simp add: hitAlongX_def Let_def)
  have hit: "getClosestIntersection hitAlongX twoFaces 0 callerRecord
       = Inr \<lparr>isect_point = Vector3D 0 1 0, isect_normal = Vector3D 1 0 0,
              isect_t = 0, isect_distance = 0\<rparr>"
    using getClosestIntersection_minimal_or_untouched
      [OF tris refl, of hitAlongX 0 callerRecord, THEN conjunct2, THEN spec [of _ 1]]
      DBL_MAX_gt
    by (simp add: hitAlongX_def Let_def less_Suc_eq)
  from miss hit show ?thesis by simp
qed

subsection \<open>Face-append operations\<close>

lemma run_face_call_lengths:
  assumes "run_face_call debug m c = Inr m'"
  shows "length (m_pointIndices m') = Suc (length (m_pointIndices m))
       \<and> length (m_normalIndices m') =
           length (m_normalIndices m) + (if carriesNormals c then 1 else 0)
       \<and> length (m_uvIndices m') = length (m_uvIndices m) + (if carriesUvs c then 1 else 0)"
  using assms
  by (cases c)
    (auto simp: addPointFace_def addPointNormalFace_def addPointNormalUvFace_def
      addPointUvFace_def addTriangle_def JET_ASSERT_def Let_def split: if_splits)

lemma run_face_calls_lengths:
  assumes "run_face_calls debug m cs = Inr m'"
  shows "length (m_pointIndices m') = length (m_pointIndices m) + length cs
       \<and> length (m_normalIndices m') =
           length (m_normalIndices m) + length (filter carriesNormals cs)
       \<and> length (m_uvIndices m') = length (m_uvIndices m) + length (filter carriesUvs cs)"
  using assms
proof (induction cs arbitrary: m)
  case Nil
  then show ?case by simp
next
  case (Cons c cs)
  then obtain m1 where m1: "run_face_call debug m c = Inr m1"
    and rest: "run_face_calls debug m1 cs = Inr m'"
    by (cases "run_face_call debug m c") auto
  from run_face_call_lengths [OF m1] Cons.IH [OF rest] show ?case
    by auto
qed

lemma run_face_call_release: "\<exists>m'. run_face_call False m c = Inr m'"
  by (cases c)
    (simp_all add: addPointNormalFace_def addPointNormalUvFace_def addPointUvFace_def
      JET_ASSERT_def)

lemma run_face_calls_release: "\<exists>m'. run_face_calls False m cs = Inr m'"
proof (induction cs arbitrary: m)
  case Nil
  show ?case by simp
next
  case (Cons c cs)
  obtain m1 where "run_face_call False m c = Inr m1"
    using run_face_call_release by blast
  with Cons.IH [of m1] show ?case by simp
qed

lemma run_face_calls_normals_debug:
  assumes "\<forall>c\<in>set cs. \<exists>pf nf. c = AddPointNormalFace pf nf"
    and "length (m_pointIndices m) = length (m_normalIndices m)"
  shows "\<exists>m'. run_face_calls True m cs = Inr m'"
  using assms
proof (induction cs arbitrary: m)
  case Nil
  show ?case by simp
next
  case (Cons c cs)
  then obtain pf nf where c: "c = AddPointNormalFace pf nf" by auto
  let ?m1 = "m\<lparr>m_pointIndices := m_pointIndices m @ [pf],
               m_normalIndices := m_normalIndices m @ [nf]\<rparr>"
  have "run_face_call True m c = Inr ?m1"
    using Cons.prems(2) by (simp add: c addPointNormalFace_def JET_ASSERT_def)
  moreover have "\<exists>m'. run_face_calls True ?m1 cs = Inr m'"
    by (rule Cons.IH) (use Cons.prems in auto)
  ultimately show ?case by simp
qed

lemma length_filter_all: "length (filter P xs) = length xs \<longleftrightarrow> (\<forall>x\<in>set xs. P x)"
proof (induction xs)
  case Nil
  show ?case by simp
next
  case (Cons x xs)
  have "length (filter P xs) \<le> length xs" by simp
  then have "length (filter P xs) \<noteq> Suc (length xs)" by linarith
  with Cons show ?case by auto
qed

text \<open>
  C7, as amended. Every face-append call adds one triple to \<open>positionFaces\<close> and one to
  each index sequence its variant names, and touches no other index sequence. So after
  any sequence of calls from an empty mesh that ran through (as every sequence does
  when assertions are compiled out), \<open>positionFaces\<close> has one entry per call,
  \<open>normalFaces\<close> one per call that carried normal indices and \<open>uvFaces\<close> one per call
  that carried uv indices; the length invariant holds exactly when all or none of the
  calls carried normal indices, and all or none carried uv indices. A sequence of
  \<open>addPointNormalFace\<close> calls passes its assertion at every call.
\<close>

theorem face_calls_lengths:
  "(\<exists>m. run_face_calls False emptyMesh cs = Inr m)
   \<and> (\<forall>m. run_face_calls debug emptyMesh cs = Inr m \<longrightarrow>
         length (m_pointIndices m) = length cs
       \<and> length (m_normalIndices m) = length (filter carriesNormals cs)
       \<and> length (m_uvIndices m) = length (filter carriesUvs cs)
       \<and> (faceLengthsMatch m \<longleftrightarrow>
            ((\<forall>c\<in>set cs. \<not> carriesNormals c) \<or> (\<forall>c\<in>set cs. carriesNormals c))
          \<and> ((\<forall>c\<in>set cs. \<not> carriesUvs c) \<or> (\<forall>c\<in>set cs. carriesUvs c))))
   \<and> ((\<forall>c\<in>set cs. \<exists>pf nf. c = AddPointNormalFace pf nf) \<longrightarrow>
        (\<exists>m. run_face_calls True emptyMesh cs = Inr m))"
proof (intro conjI allI impI)
  show "\<exists>m. run_face_calls False emptyMesh cs = Inr m"
    by (rule run_face_calls_release)
next
  fix m assume run: "run_face_calls debug emptyMesh cs = Inr m"
  from run_face_calls_lengths [OF run]
  have p: "length (m_pointIndices m) = length cs"
    and n: "length (m_normalIndices m) = length (filter carriesNormals cs)"
    and t: "length (m_uvIndices m) = length (filter carriesUvs cs)"
    by (simp_all add: emptyMesh_def)
  show "length (m_pointIndices m) = length cs" by (rule p)
  show "length (m_normalIndices m) = length (filter carriesNormals cs)" by (rule n)
  show "length (m_uvIndices m) = length (filter carriesUvs cs)" by (rule t)
  have "m_normalIndices m = [] \<longleftrightarrow> (\<forall>c\<in>set cs. \<not> carriesNormals c)"
  proof -
    have "m_normalIndices m = [] \<longleftrightarrow> filter carriesNormals cs = []"
      using n by (metis length_0_conv)
    then show ?thesis by (simp add: filter_empty_conv)
  qed
  moreover have "length (m_normalIndices m) = length (m_pointIndices m)
      \<longleftrightarrow> (\<forall>c\<in>set cs. carriesNormals c)"
    using n p by (simp add: length_filter_all)
  moreover have "m_uvIndices m = [] \<longleftrightarrow> (\<forall>c\<in>set cs. \<not> carriesUvs c)"
  proof -
    have "m_uvIndices m = [] \<longleftrightarrow> filter carriesUvs cs = []"
      using t by (metis length_0_conv)
    then show ?thesis by (simp add: filter_empty_conv)
  qed
  moreover have "length (m_uvIndices m) = length (m_pointIndices m)
      \<longleftrightarrow> (\<forall>c\<in>set cs. carriesUvs c)"
    using t p by (simp add: length_filter_all)
  ultimately show "faceLengthsMatch m \<longleftrightarrow>
            ((\<forall>c\<in>set cs. \<not> carriesNormals c) \<or> (\<forall>c\<in>set cs. carriesNormals c))
          \<and> ((\<forall>c\<in>set cs. \<not> carriesUvs c) \<or> (\<forall>c\<in>set cs. carriesUvs c))"
    by (simp add: faceLengthsMatch_def)
next
  assume "\<forall>c\<in>set cs. \<exists>pf nf. c = AddPointNormalFace pf nf"
  then show "\<exists>m. run_face_calls True emptyMesh cs = Inr m"
    by (rule run_face_calls_normals_debug) (simp add: emptyMesh_def)
qed

text \<open>
  The claim as stated fails: \<open>addPointNormalFace\<close> followed by \<open>addPointFace\<close> runs
  through with and without assertions and leaves one normal triple for two faces.
\<close>

theorem face_calls_mixed_counterexample:
  "run_face_calls True emptyMesh mixedCalls = Inr mixedResult
   \<and> run_face_calls False emptyMesh mixedCalls = Inr mixedResult
   \<and> m_normalIndices mixedResult \<noteq> []
   \<and> length (m_normalIndices mixedResult) \<noteq> length (m_pointIndices mixedResult)
   \<and> \<not> faceLengthsMatch mixedResult"
  by (simp add: mixedCalls_def mixedResult_def emptyMesh_def addPointNormalFace_def
      addPointFace_def JET_ASSERT_def faceLengthsMatch_def)

theorem face_calls_lengths_witness:
  "run_face_calls True emptyMesh normalCalls = Inr normalResult
   \<and> length (m_pointIndices normalResult) = length normalCalls
   \<and> faceLengthsMatch normalResult"
proof -
  have run: "run_face_calls True emptyMesh normalCalls = Inr normalResult"
    by (simp add: normalCalls_def normalResult_def emptyMesh_def addPointNormalFace_def
        JET_ASSERT_def)
  have "(\<forall>c\<in>set normalCalls. carriesNormals c) \<and> (\<forall>c\<in>set normalCalls. \<not> carriesUvs c)"
    by (simp add: normalCalls_def)
  with face_calls_lengths [of normalCalls True, THEN conjunct2, THEN conjunct1,
      THEN spec [of _ normalResult]] run
  show ?thesis by blast
qed

subsection \<open>Face events of the decoder\<close>

lemma readObj_handler_triangular_V:
  "readObj_handler debug m (TriangularFaceV v0 v1 v2)
     = Inr (m\<lparr>m_pointIndices := m_pointIndices m @ [(v0 - 1, v1 - 1, v2 - 1)]\<rparr>)"
  by (simp add: addPointFace_def)

lemma readObj_handler_triangular_VT:
  "readObj_handler False m (TriangularFaceVT (v0, vt0) (v1, vt1) (v2, vt2))
     = Inr (m\<lparr>m_pointIndices := m_pointIndices m @ [(v0 - 1, v1 - 1, v2 - 1)],
              m_uvIndices := m_uvIndices m @ [(vt0 - 1, vt1 - 1, vt2 - 1)]\<rparr>)"
  by (simp add: addPointUvFace_def JET_ASSERT_def)

lemma readObj_handler_triangular_VN:
  "readObj_handler False m (TriangularFaceVN (v0, vn0) (v1, vn1) (v2, vn2))
     = Inr (m\<lparr>m_pointIndices := m_pointIndices m @ [(v0 - 1, v1 - 1, v2 - 1)],
              m_normalIndices := m_normalIndices m @ [(vn0 - 1, vn1 - 1, vn2 - 1)]\<rparr>)"
  by (simp add: addPointNormalFace_def JET_ASSERT_def)

text \<open>
  C9. The position-only, position+uv and position+normal handlers append the
  decremented indices to the sequences of their kinds (the three lemmas above). The
  position+uv+normal handler appends one triple to each of the three index sequences,
  every index decremented, but the texture indices \<open>vt\<close> go to the normal faces and the
  normal indices \<open>vn\<close> go to the uv faces.
\<close>

theorem readObj_handler_triangular_VTN:
  "readObj_handler False m (TriangularFaceVTN (v0, vt0, vn0) (v1, vt1, vn1) (v2, vt2, vn2))
     = Inr (m\<lparr>m_pointIndices := m_pointIndices m @ [(v0 - 1, v1 - 1, v2 - 1)],
              m_normalIndices := m_normalIndices m @ [(vt0 - 1, vt1 - 1, vt2 - 1)],
              m_uvIndices := m_uvIndices m @ [(vn0 - 1, vn1 - 1, vn2 - 1)]\<rparr>)"
  by (simp add: addPointNormalUvFace_def JET_ASSERT_def)

lemma readObj_handler_VTN_example:
  "readObj_handler False emptyMesh (TriangularFaceVTN (1, 1, 2) (2, 1, 2) (3, 1, 2))
     = Inr (emptyMesh\<lparr>m_pointIndices := [(0, 1, 2)], m_normalIndices := [(0, 0, 0)],
              m_uvIndices := [(1, 1, 1)]\<rparr>)"
  by (simp add: addPointNormalUvFace_def JET_ASSERT_def emptyMesh_def)

lemma one_based_index: "v \<noteq> 0 \<Longrightarrow> unat (v - 1 :: size_t) + 1 = unat v"
  by (simp add: unat_minus_one unat_gt_0 Suc_leI)

lemma readObj_handler_non_triangular:
  "isNonTriangularFace ev \<Longrightarrow> readObj_handler debug m ev = Inr m"
  by (cases ev) simp_all

lemma readObj_returns_parse_result:
  "readObj parse debug m strm =
     bindE (readObj_events debug m (fst (parse strm))) (\<lambda>m'. Inr (m', snd (parse strm)))"
  by (cases "parse strm") (simp add: readObj_def)

subsection \<open>The cumulative area table\<close>

lemma lengthSquared_nonneg: "0 \<le> lengthSquared a"
  by (simp add: lengthSquared_def)

lemma area_nonneg: "0 \<le> area tri"
  by (cases "points tri") (simp add: area_def length3_def lengthSquared_nonneg)

lemma areaCache_accumulate_append:
  "areaCache_accumulate m (xs @ ys) cache
     = bindE (areaCache_accumulate m xs cache) (areaCache_accumulate m ys)"
proof (induction xs arbitrary: cache)
  case Nil
  show ?case by simp
next
  case (Cons i xs)
  show ?case
    by (cases "triangle m (i - 1)"; cases "array_at cache (i - 1)";
        cases "array_set cache i (area (projr (triangle m (i - 1))) + projr (array_at cache (i - 1)))")
       (simp_all add: Cons.IH Let_def)
qed

lemma prefixArea_0: "prefixArea tris 0 = 0"
  by (simp add: prefixArea_def)

lemma prefixArea_Suc:
  "i < length tris \<Longrightarrow> prefixArea tris (Suc i) = prefixArea tris i + area (tris ! i)"
  by (simp add: prefixArea_def take_Suc_conv_app_nth)

lemma prefixArea_mono_Suc: "prefixArea tris i \<le> prefixArea tris (Suc i)"
proof (cases "i < length tris")
  case True
  then show ?thesis using area_nonneg [of "tris ! i"] by (simp add: prefixArea_Suc)
next
  case False
  then show ?thesis by (simp add: prefixArea_def)
qed

lemma prefixArea_mono: "i \<le> j \<Longrightarrow> prefixArea tris i \<le> prefixArea tris j"
  by (rule lift_Suc_mono_le [of "prefixArea tris"]) (rule prefixArea_mono_Suc)

lemma triangle_nth:
  assumes "map (triangle m) [0..<n] = map Inr tris" and "i < n"
  shows "triangle m i = Inr (tris ! i)"
proof -
  have "length tris = n" using assms(1) by (metis length_map length_upt diff_zero)
  moreover have "map (triangle m) [0..<n] ! i = map Inr tris ! i" using assms(1) by simp
  ultimately show ?thesis using assms(2) by simp
qed

lemma areaCache_accumulate_prefix:
  assumes "map (triangle m) [0..<n] = map Inr tris"
    and "length cache = Suc n" and "cache ! 0 = 0" and "k \<le> n"
  shows "\<exists>c. areaCache_accumulate m [1..<Suc k] cache = Inr c \<and> length c = Suc n
           \<and> (\<forall>i\<le>k. c ! i = prefixArea tris i) \<and> (\<forall>i>k. c ! i = cache ! i)"
  using assms(4)
proof (induction k)
  case 0
  then show ?case using assms(2,3) by (simp add: prefixArea_0)
next
  case (Suc k)
  then obtain c where c: "areaCache_accumulate m [1..<Suc k] cache = Inr c"
    "length c = Suc n" "\<forall>i\<le>k. c ! i = prefixArea tris i" "\<forall>i>k. c ! i = cache ! i"
    by auto
  have len: "length tris = n" using assms(1) by (metis length_map length_upt diff_zero)
  have tri: "triangle m k = Inr (tris ! k)"
    using triangle_nth [OF assms(1)] Suc.prems by simp
  have step: "areaCache_accumulate m [Suc k] c
      = Inr (c[Suc k := area (tris ! k) + prefixArea tris k])"
    using tri c(2,3) Suc.prems by (simp add: array_at_def array_set_def)
  have "[1..<Suc (Suc k)] = [1..<Suc k] @ [Suc k]" by simp
  then have "areaCache_accumulate m [1..<Suc (Suc k)] cache
      = Inr (c[Suc k := area (tris ! k) + prefixArea tris k])"
    using c(1) step by (simp only: areaCache_accumulate_append bindE.simps)
  moreover have "\<forall>i\<le>Suc k. (c[Suc k := area (tris ! k) + prefixArea tris k]) ! i
      = prefixArea tris i"
    using c(2,3) Suc.prems len by (auto simp: nth_list_update prefixArea_Suc le_Suc_eq)
  moreover have "\<forall>i>Suc k. (c[Suc k := area (tris ! k) + prefixArea tris k]) ! i = cache ! i"
    using c(4) by (auto simp: nth_list_update)
  ultimately show ?case using c(2) by simp
qed

lemma areaCache_accumulate_result:
  assumes "map (triangle m) [0..<n] = map Inr tris"
    and "length cache = Suc n" and "cache ! 0 = 0"
  shows "areaCache_accumulate m [1..<Suc n] cache = Inr (map (prefixArea tris) [0..<Suc n])"
proof -
  obtain c where c: "areaCache_accumulate m [1..<Suc n] cache = Inr c" "length c = Suc n"
    "\<forall>i\<le>n. c ! i = prefixArea tris i"
    using areaCache_accumulate_prefix [OF assms order_refl] by blast
  have "c = map (prefixArea tris) [0..<Suc n]"
  proof (rule nth_equalityI)
    show "length c = length (map (prefixArea tris) [0..<Suc n])" using c(2) by simp
    fix i assume "i < length c"
    then have "i \<le> n" using c(2) by simp
    then show "c ! i = map (prefixArea tris) [0..<Suc n] ! i"
      using c(3) by (simp del: upt_Suc add: nth_map_upt)
  qed
  with c(1) show ?thesis by simp
qed

lemma areaCache_normalize_append:
  "areaCache_normalize n (xs @ ys) cache
     = bindE (areaCache_normalize n xs cache) (areaCache_normalize n ys)"
proof (induction xs arbitrary: cache)
  case Nil
  show ?case by simp
next
  case (Cons i xs)
  show ?case
    by (cases "array_at cache i"; cases "array_at cache n";
        cases "array_set cache i (projr (array_at cache i) / projr (array_at cache n))")
       (simp_all add: Cons.IH)
qed

lemma areaCache_normalize_others:
  assumes "n < length c" and "c ! n \<noteq> 0" and "n \<notin> set is" and "\<forall>i\<in>set is. i < length c"
    and "distinct is"
  shows "areaCache_normalize n is c
     = Inr (map (\<lambda>j. if j \<in> set is then c ! j / c ! n else c ! j) [0..<length c])"
  using assms
proof (induction "is" arbitrary: c)
  case Nil
  then show ?case by (simp add: map_nth)
next
  case (Cons i "is")
  let ?c1 = "c[i := c ! i / c ! n]"
  have i: "i < length c" "i \<noteq> n" "i \<notin> set is" using Cons.prems by auto
  have "areaCache_normalize n (i # is) c = areaCache_normalize n is ?c1"
    using Cons.prems(1,2) i by (simp add: array_at_def array_set_def)
  also have "\<dots> = Inr (map (\<lambda>j. if j \<in> set is then ?c1 ! j / ?c1 ! n else ?c1 ! j)
                         [0..<length ?c1])"
    by (rule Cons.IH) (use Cons.prems i in auto)
  also have "map (\<lambda>j. if j \<in> set is then ?c1 ! j / ?c1 ! n else ?c1 ! j) [0..<length ?c1]
     = map (\<lambda>j. if j \<in> set (i # is) then c ! j / c ! n else c ! j) [0..<length c]"
    using i by (auto simp: nth_list_update)
  finally show ?case .
qed

lemma areaCache_normalize_result:
  assumes "length c = Suc n" and "c ! n \<noteq> 0" and "c ! 0 = 0"
  shows "areaCache_normalize n [1..<Suc n] c = Inr (map (\<lambda>x. x / c ! n) c)"
proof (cases n)
  case 0
  then show ?thesis using assms by (cases c) auto
next
  case (Suc n')
  let ?c1 = "map (\<lambda>j. if j \<in> set [1..<n] then c ! j / c ! n else c ! j) [0..<length c]"
  have split: "[1..<Suc n] = [1..<n] @ [n]" using Suc by simp
  have first: "areaCache_normalize n [1..<n] c = Inr ?c1"
    by (rule areaCache_normalize_others) (use assms in auto)
  have c1n: "?c1 ! n = c ! n" using assms(1) by (simp del: upt_Suc add: nth_map_upt)
  have "areaCache_normalize n [n] ?c1 = Inr (?c1[n := ?c1 ! n / ?c1 ! n])"
    using assms(1,2) c1n by (simp del: upt_Suc add: array_at_def array_set_def)
  moreover have "?c1[n := ?c1 ! n / ?c1 ! n] = map (\<lambda>x. x / c ! n) c"
  proof (rule nth_equalityI)
    show "length (?c1[n := ?c1 ! n / ?c1 ! n]) = length (map (\<lambda>x. x / c ! n) c)" by simp
    fix i assume "i < length (?c1[n := ?c1 ! n / ?c1 ! n])"
    then have i: "i < Suc n" using assms(1) by simp
    show "(?c1[n := ?c1 ! n / ?c1 ! n]) ! i = map (\<lambda>x. x / c ! n) c ! i"
    proof (cases "i = n")
      case True
      then show ?thesis using assms(1) c1n by simp
    next
      case False
      then show ?thesis using i assms(1,3)
        by (cases "i = 0") (auto simp del: upt_Suc simp add: nth_map_upt)
    qed
  qed
  ultimately show ?thesis
    using first by (simp only: split areaCache_normalize_append bindE.simps)
qed

lemma computeAreaCache_eq_P: "computeAreaCacheP m = computeAreaCache m"
  by (simp add: computeAreaCache_def computeAreaCacheP_def)

lemma computeAreaCache_result:
  assumes "map (triangle m) [0..<numberOfFaces m] = map Inr tris"
    and "prefixArea tris (numberOfFaces m) \<noteq> 0"
  shows "computeAreaCache m = Inr (m\<lparr>m_areaCache :=
           map (\<lambda>x. x / prefixArea tris (numberOfFaces m))
             (map (prefixArea tris) [0..<Suc (numberOfFaces m)])\<rparr>)"
proof -
  let ?n = "numberOfFaces m"
  let ?c0 = "resize (m_areaCache m) (?n + 1) 0"
  let ?raw = "map (prefixArea tris) [0..<Suc ?n]"
  have len0: "length ?c0 = Suc ?n" by (simp add: resize_def)
  then have set0: "array_set ?c0 0 0 = Inr (?c0[0 := 0])" by (simp add: array_set_def)
  have acc: "areaCache_accumulate m [1..<Suc ?n] (?c0[0 := 0]) = Inr ?raw"
    by (rule areaCache_accumulate_result [OF assms(1)]) (use len0 in auto)
  have rawn: "?raw ! ?n = prefixArea tris ?n"
    by (simp del: upt_Suc add: nth_map_upt)
  have raw0: "?raw ! 0 = 0"
    by (simp del: upt_Suc add: nth_map_upt prefixArea_0)
  have norm: "areaCache_normalize ?n [1..<Suc ?n] ?raw = Inr (map (\<lambda>x. x / ?raw ! ?n) ?raw)"
    by (rule areaCache_normalize_result) (use assms(2) rawn raw0 in \<open>simp_all del: upt_Suc\<close>)
  show ?thesis
    unfolding computeAreaCache_def set0 bindE.simps
    using acc norm rawn len0 by (simp del: upt_Suc)
qed

lemma computeAreaCache_table:
  assumes "map (triangle m) [0..<numberOfFaces m] = map Inr tris"
    and "0 < sum_list (map area tris)"
    and "raw = map (\<lambda>i. sum_list (map area (take i tris))) [0..<numberOfFaces m + 1]"
    and "cache = map (\<lambda>x. x / raw ! numberOfFaces m) raw"
  shows "length raw = numberOfFaces m + 1 \<and> raw ! 0 = 0
       \<and> (\<forall>i\<in>{1..numberOfFaces m}. raw ! i = raw ! (i - 1) + area (tris ! (i - 1)))
       \<and> raw ! numberOfFaces m = sum_list (map area tris)
       \<and> computeAreaCache m = Inr (m\<lparr>m_areaCache := cache\<rparr>)
       \<and> computeAreaCacheP m = Inr (m\<lparr>m_areaCache := cache\<rparr>)
       \<and> length cache = numberOfFaces m + 1 \<and> cache ! 0 = 0
       \<and> sorted cache \<and> last cache = 1"
proof -
  let ?n = "numberOfFaces m"
  have len: "length tris = ?n" using assms(1) by (metis length_map length_upt diff_zero)
  have raw: "raw = map (prefixArea tris) [0..<Suc ?n]"
    using assms(3) by (simp add: prefixArea_def [abs_def])
  have nth: "raw ! i = prefixArea tris i" if "i \<le> ?n" for i
    using that unfolding raw by (simp del: upt_Suc add: nth_map_upt)
  have total: "raw ! ?n = sum_list (map area tris)"
    using nth [of ?n] len by (simp add: prefixArea_def)
  have lraw: "length raw = ?n + 1" by (simp add: raw)
  have r0: "raw ! 0 = 0" using nth [of 0] by (simp add: prefixArea_0)
  have rec: "\<forall>i\<in>{1..?n}. raw ! i = raw ! (i - 1) + area (tris ! (i - 1))"
  proof
    fix i assume "i \<in> {1..?n}"
    then obtain j where j: "i = Suc j" "j < ?n" by (cases i) auto
    then show "raw ! i = raw ! (i - 1) + area (tris ! (i - 1))"
      using nth [of i] nth [of j] len by (simp add: prefixArea_Suc)
  qed
  have comp: "computeAreaCache m = Inr (m\<lparr>m_areaCache := cache\<rparr>)"
    using computeAreaCache_result [OF assms(1)] assms(2) total nth [of ?n]
    by (simp add: assms(4) raw del: upt_Suc)
  have lcache: "length cache = ?n + 1" by (simp add: assms(4) lraw)
  have cnth: "cache ! i = prefixArea tris i / raw ! ?n" if "i \<le> ?n" for i
    using that nth [of i] lraw by (simp add: assms(4))
  have c0: "cache ! 0 = 0" using cnth [of 0] by (simp add: prefixArea_0)
  have sorted: "sorted cache"
    unfolding sorted_iff_nth_mono
  proof (intro allI impI)
    fix i j assume "i \<le> j" "j < length cache"
    then have "i \<le> ?n" "j \<le> ?n" using lcache by auto
    then show "cache ! i \<le> cache ! j"
      using cnth [of i] cnth [of j] prefixArea_mono [OF \<open>i \<le> j\<close>, of tris] assms(2) total
      by (simp add: divide_right_mono)
  qed
  have "cache \<noteq> []" using lcache by auto
  then have "last cache = cache ! ?n" using lcache by (simp add: last_conv_nth)
  then have last: "last cache = 1"
    using cnth [of ?n] nth [of ?n] assms(2) total by simp
  show ?thesis
    using lraw r0 rec total comp lcache c0 sorted last by (simp add: computeAreaCache_eq_P)
qed

text \<open>
  C3. For a mesh with \<open>n\<close> faces that all materialise and positive total area,
  \<open>computeAreaCache\<close> (and \<open>computeAreaCacheP\<close>) first builds the table \<open>raw\<close> of length
  \<open>n + 1\<close> with \<open>raw[0] = 0\<close> and \<open>raw[i] = raw[i-1] + area(face i-1)\<close>, then leaves
  in the cache every entry of \<open>raw\<close> divided by the total \<open>raw[n]\<close>. The cache is
  non-decreasing, starts with 0 and ends with 1.
\<close>

theorem computeAreaCache_cumulative:
  assumes "map (triangle m) [0..<numberOfFaces m] = map Inr tris"
    and "0 < sum_list (map area tris)"
    and "raw = map (\<lambda>i. sum_list (map area (take i tris))) [0..<numberOfFaces m + 1]"
    and "cache = map (\<lambda>x. x / raw ! numberOfFaces m) raw"
  shows "length raw = numberOfFaces m + 1 \<and> raw ! 0 = 0
       \<and> (\<forall>i\<in>{1..numberOfFaces m}. raw ! i = raw ! (i - 1) + area (tris ! (i - 1)))
       \<and> raw ! numberOfFaces m = sum_list (map area tris)
       \<and> computeAreaCache m = Inr (m\<lparr>m_areaCache := cache\<rparr>)
       \<and> computeAreaCacheP m = Inr (m\<lparr>m_areaCache := cache\<rparr>)
       \<and> length cache = numberOfFaces m + 1 \<and> cache ! 0 = 0
       \<and> sorted cache \<and> last cache = 1"
  using assms by (rule computeAreaCache_table)

lemma area_tri0: "area \<lparr>points = (Vector3D 1 0 0, Vector3D 1 1 0, Vector3D 1 0 1),
       normals = (Some (Vector3D 1 0 0), Some (Vector3D 1 0 0), Some (Vector3D 1 0 0)),
       uvs = (Vector2D 0 0, Vector2D 0 0, Vector2D 0 0)\<rparr> = 1 / 2"
  by (simp add: area_def cross_def Vector3D_sub_def length3_def lengthSquared_def)

lemma area_tri1: "area \<lparr>points = (Vector3D 0 1 0, Vector3D 0 2 0, Vector3D 0 1 1),
       normals = (Some (Vector3D 1 0 0), Some (Vector3D 1 0 0), Some (Vector3D 1 0 0)),
       uvs = (Vector2D 0 0, Vector2D 0 0, Vector2D 0 0)\<rparr> = 1 / 2"
  by (simp add: area_def cross_def Vector3D_sub_def length3_def lengthSquared_def)

text \<open>The two faces of \<open>twoFaces\<close> have area one half each.\<close>

theorem computeAreaCache_cumulative_witness:
  "computeAreaCache twoFaces = Inr (twoFaces\<lparr>m_areaCache := [0, 1 / 2, 1]\<rparr>)
   \<and> sorted [0, 1 / 2, 1 :: real] \<and> last [0, 1 / 2, 1 :: real] = 1"
proof -
  let ?tris = "[\<lparr>points = (Vector3D 1 0 0, Vector3D 1 1 0, Vector3D 1 0 1),
       normals = (Some (Vector3D 1 0 0), Some (Vector3D 1 0 0), Some (Vector3D 1 0 0)),
       uvs = (Vector2D 0 0, Vector2D 0 0, Vector2D 0 0)\<rparr>,
       \<lparr>points = (Vector3D 0 1 0, Vector3D 0 2 0, Vector3D 0 1 1),
       normals = (Some (Vector3D 1 0 0), Some (Vector3D 1 0 0), Some (Vector3D 1 0 0)),
       uvs = (Vector2D 0 0, Vector2D 0 0, Vector2D 0 0)\<rparr>]"
  have n: "numberOfFaces twoFaces = 2"
    by (simp add: numberOfFaces_def twoFaces_def)
  have tris: "map (triangle twoFaces) [0..<numberOfFaces twoFaces] = map Inr ?tris"
    using triangle_twoFaces_0 triangle_twoFaces_1
    by (simp add: n upt_rec)
  have pos: "0 < sum_list (map area ?tris)"
    by (simp add: area_tri0 area_tri1)
  have raw: "map (\<lambda>i. sum_list (map area (take i ?tris))) [0..<numberOfFaces twoFaces + 1]
      = [0, 1 / 2, 1]"
    by (simp add: n upt_rec area_tri0 area_tri1 numeral_2_eq_2)
  have cache: "map (\<lambda>x. x / [0, 1 / 2, 1 :: real] ! numberOfFaces twoFaces) [0, 1 / 2, 1]
      = [0, 1 / 2, 1 :: real]"
    by (simp add: n)
  from computeAreaCache_cumulative [OF tris pos raw [symmetric] cache [symmetric]]
  show ?thesis by simp
qed

subsection \<open>Sampling a face\<close>

text \<open>On a sorted list the binary search returns the first index whose entry is not below the value.\<close>

lemma lower_bound_loop_partition:
  assumes "sorted xs" and "first + len \<le> length xs"
    and "\<forall>i<first. xs ! i < val"
    and "\<forall>i. first + len \<le> i \<and> i < length xs \<longrightarrow> val \<le> xs ! i"
  shows "lower_bound_loop xs val first len \<le> length xs
       \<and> (\<forall>i<lower_bound_loop xs val first len. xs ! i < val)
       \<and> (\<forall>i. lower_bound_loop xs val first len \<le> i \<and> i < length xs \<longrightarrow> val \<le> xs ! i)"
  using assms
proof (induction xs val first len rule: lower_bound_loop.induct)
  case (1 xs val first len)
  show ?case
  proof (cases "0 < len")
    case False
    then have "lower_bound_loop xs val first len = first"
      by (subst lower_bound_loop.simps) simp
    with "1.prems" False show ?thesis by simp
  next
    case True
    let ?middle = "first + len div 2"
    have mid: "?middle < length xs" using True "1.prems"(2) by (simp add: less_le_trans)
    show ?thesis
    proof (cases "xs ! ?middle < val")
      case less: True
      have eq: "lower_bound_loop xs val first len
          = lower_bound_loop xs val (?middle + 1) (len - len div 2 - 1)"
        using True less by (subst lower_bound_loop.simps) simp
      have below: "\<forall>i<?middle + 1. xs ! i < val"
      proof (intro allI impI)
        fix i assume "i < ?middle + 1"
        then have "i \<le> ?middle" by simp
        then have "xs ! i \<le> xs ! ?middle"
          using "1.prems"(1) mid by (simp add: sorted_iff_nth_mono)
        with less show "xs ! i < val" by simp
      qed
      have sum: "?middle + 1 + (len - len div 2 - 1) = first + len"
        using True by simp
      have "lower_bound_loop xs val (?middle + 1) (len - len div 2 - 1) \<le> length xs
       \<and> (\<forall>i<lower_bound_loop xs val (?middle + 1) (len - len div 2 - 1). xs ! i < val)
       \<and> (\<forall>i. lower_bound_loop xs val (?middle + 1) (len - len div 2 - 1) \<le> i
              \<and> i < length xs \<longrightarrow> val \<le> xs ! i)"
        by (rule "1.IH"(1) [OF True less "1.prems"(1)])
           (use sum "1.prems"(2,4) below in \<open>simp_all only:\<close>)
      then show ?thesis unfolding eq .
    next
      case geq: False
      have eq: "lower_bound_loop xs val first len = lower_bound_loop xs val first (len div 2)"
        using True geq by (subst lower_bound_loop.simps) simp
      have above: "\<forall>i. first + len div 2 \<le> i \<and> i < length xs \<longrightarrow> val \<le> xs ! i"
      proof (intro allI impI)
        fix i assume "first + len div 2 \<le> i \<and> i < length xs"
        then have "xs ! ?middle \<le> xs ! i"
          using "1.prems"(1) by (simp add: sorted_iff_nth_mono)
        with geq show "val \<le> xs ! i" by simp
      qed
      have "lower_bound_loop xs val first (len div 2) \<le> length xs
       \<and> (\<forall>i<lower_bound_loop xs val first (len div 2). xs ! i < val)
       \<and> (\<forall>i. lower_bound_loop xs val first (len div 2) \<le> i
              \<and> i < length xs \<longrightarrow> val \<le> xs ! i)"
        by (rule "1.IH"(2) [OF True geq "1.prems"(1)])
           (use mid "1.prems"(3) above in \<open>simp_all\<close>)
      then show ?thesis unfolding eq .
    qed
  qed
qed

lemma lower_bound_first_not_less:
  assumes "sorted xs"
  shows "lower_bound xs val \<le> length xs
       \<and> (\<forall>i<lower_bound xs val. xs ! i < val)
       \<and> (\<forall>i. lower_bound xs val \<le> i \<and> i < length xs \<longrightarrow> val \<le> xs ! i)"
  unfolding lower_bound_def
  by (rule lower_bound_loop_partition [OF assms]) simp_all

lemma triangle_areaCache_update: "triangle (m\<lparr>m_areaCache := c\<rparr>) i = triangle m i"
  by (simp add: triangle_def hasUvs_def hasNormals_def cong: if_cong)

lemma sample_with_cache:
  assumes tris: "map (triangle m) [0..<numberOfFaces m] = map Inr tris"
    and pos: "0 < numberOfFaces m"
    and u1: "u1 < 1"
    and m': "\<exists>c. m' = m\<lparr>m_areaCache := c\<rparr>"
    and len: "length (m_areaCache m') = numberOfFaces m + 1"
    and sorted: "sorted (m_areaCache m')" and last: "last (m_areaCache m') = 1"
  shows "\<exists>position.
           (let ptr = lower_bound (m_areaCache m') u1;
                offset = (if 0 < ptr then ptr - 1 else 0)
            in bindE (triangle m' offset) (\<lambda>tri. Inr (tsample tri u2 u3, m')))
             = Inr (tsample (tris ! nat (max 0 (int position - 1))) u2 u3, m')
         \<and> position < length (m_areaCache m')
         \<and> u1 \<le> m_areaCache m' ! position
         \<and> (\<forall>i<position. m_areaCache m' ! i < u1)
         \<and> nat (max 0 (int position - 1)) < numberOfFaces m"
proof -
  let ?c = "m_areaCache m'"
  let ?r = "lower_bound ?c u1"
  from lower_bound_first_not_less [OF sorted, of u1]
  have r: "?r \<le> length ?c" "\<forall>i<?r. ?c ! i < u1"
    "\<forall>i. ?r \<le> i \<and> i < length ?c \<longrightarrow> u1 \<le> ?c ! i"
    by simp_all
  have "?c \<noteq> []" using len by auto
  then have lastn: "?c ! numberOfFaces m = 1"
    using last len by (simp add: last_conv_nth)
  have "?r \<noteq> length ?c"
  proof
    assume "?r = length ?c"
    with r(2) len have "?c ! numberOfFaces m < u1" by simp
    with lastn u1 show False by simp
  qed
  with r(1) have rlt: "?r < length ?c" by simp
  let ?offset = "if 0 < ?r then ?r - 1 else 0"
  have off: "?offset = nat (max 0 (int ?r - 1))" by auto
  have offn: "?offset < numberOfFaces m" using rlt len pos by auto
  obtain c where "m' = m\<lparr>m_areaCache := c\<rparr>" using m' by blast
  then have "triangle m' ?offset = triangle m ?offset"
    by (simp add: triangle_areaCache_update)
  also have "\<dots> = Inr (tris ! ?offset)"
  proof -
    have "length tris = numberOfFaces m"
      using tris by (metis length_map length_upt diff_zero)
    moreover have "map (triangle m) [0..<numberOfFaces m] ! ?offset = map Inr tris ! ?offset"
      using tris by simp
    ultimately show ?thesis using offn by simp
  qed
  finally have tri: "triangle m' ?offset = Inr (tris ! ?offset)" .
  have "(let ptr = ?r; offset = (if 0 < ptr then ptr - 1 else 0)
            in bindE (triangle m' offset) (\<lambda>tri. Inr (tsample tri u2 u3, m')))
             = Inr (tsample (tris ! nat (max 0 (int ?r - 1))) u2 u3, m')"
    using tri off by (simp add: Let_def)
  moreover have "u1 \<le> ?c ! ?r" using r(3) rlt by simp
  moreover have "nat (max 0 (int ?r - 1)) < numberOfFaces m" using offn off by simp
  ultimately show ?thesis using rlt r(2) by blast
qed

text \<open>
  C2. Take a mesh with at least one face, all faces materialising, positive total area,
  and \<open>u1\<close> in \<open>[0, 1)\<close>; a cache that already has length \<open>numberOfFaces() + 1\<close> is
  assumed to be one that \<open>computeAreaCache\<close> leaves, that is sorted and ending in 1.
  Then \<open>sample\<close> recomputes the cache exactly when its length differs from
  \<open>numberOfFaces() + 1\<close>, the cache has that length afterwards, and the point and normal
  are the primitive's sample with \<open>u2\<close> and \<open>u3\<close> on the face of index
  \<open>max(0, position - 1)\<close>, where \<open>position\<close> is the first index of the cache whose entry
  is at least \<open>u1\<close>.
\<close>

theorem sample_selects_face:
  assumes "map (triangle m) [0..<numberOfFaces m] = map Inr tris"
    and "0 < numberOfFaces m"
    and "0 < sum_list (map area tris)"
    and "0 \<le> u1" and "u1 < 1"
    and "length (m_areaCache m) = numberOfFaces m + 1
           \<longrightarrow> sorted (m_areaCache m) \<and> last (m_areaCache m) = 1"
  shows "\<exists>m' position.
           sample tsample m u1 u2 u3
             = Inr (tsample (tris ! nat (max 0 (int position - 1))) u2 u3, m')
         \<and> (if length (m_areaCache m) \<noteq> numberOfFaces m + 1
             then computeAreaCacheP m = Inr m' else m' = m)
         \<and> length (m_areaCache m') = numberOfFaces m + 1
         \<and> position < length (m_areaCache m')
         \<and> u1 \<le> m_areaCache m' ! position
         \<and> (\<forall>i<position. m_areaCache m' ! i < u1)
         \<and> nat (max 0 (int position - 1)) < numberOfFaces m"
proof (cases "length (m_areaCache m) \<noteq> numberOfFaces m + 1")
  case True
  define raw where "raw = map (\<lambda>i. sum_list (map area (take i tris))) [0..<numberOfFaces m + 1]"
  define cache where "cache = map (\<lambda>x. x / raw ! numberOfFaces m) raw"
  from computeAreaCache_table [OF assms(1,3) raw_def cache_def]
  have comp: "computeAreaCacheP m = Inr (m\<lparr>m_areaCache := cache\<rparr>)"
    and props: "length cache = numberOfFaces m + 1" "sorted cache" "last cache = 1"
    by simp_all
  let ?m' = "m\<lparr>m_areaCache := cache\<rparr>"
  have "\<exists>position.
           (let ptr = lower_bound (m_areaCache ?m') u1;
                offset = (if 0 < ptr then ptr - 1 else 0)
            in bindE (triangle ?m' offset) (\<lambda>tri. Inr (tsample tri u2 u3, ?m')))
             = Inr (tsample (tris ! nat (max 0 (int position - 1))) u2 u3, ?m')
         \<and> position < length (m_areaCache ?m')
         \<and> u1 \<le> m_areaCache ?m' ! position
         \<and> (\<forall>i<position. m_areaCache ?m' ! i < u1)
         \<and> nat (max 0 (int position - 1)) < numberOfFaces m"
    by (rule sample_with_cache [OF assms(1,2,5)]) (use props in auto)
  then obtain position where
    "(let ptr = lower_bound (m_areaCache ?m') u1;
                offset = (if 0 < ptr then ptr - 1 else 0)
            in bindE (triangle ?m' offset) (\<lambda>tri. Inr (tsample tri u2 u3, ?m')))
             = Inr (tsample (tris ! nat (max 0 (int position - 1))) u2 u3, ?m')"
    "position < length (m_areaCache ?m')" "u1 \<le> m_areaCache ?m' ! position"
    "\<forall>i<position. m_areaCache ?m' ! i < u1"
    "nat (max 0 (int position - 1)) < numberOfFaces m"
    by blast
  moreover from this(1) have "sample tsample m u1 u2 u3
             = Inr (tsample (tris ! nat (max 0 (int position - 1))) u2 u3, ?m')"
    using True comp by (simp add: sample_def)
  ultimately show ?thesis
    using True comp props(1) by (intro exI [of _ ?m'] exI [of _ position]) simp
next
  case False
  then have len: "length (m_areaCache m) = numberOfFaces m + 1" by simp
  with assms(6) have props: "sorted (m_areaCache m)" "last (m_areaCache m) = 1" by simp_all
  have "\<exists>position.
           (let ptr = lower_bound (m_areaCache m) u1;
                offset = (if 0 < ptr then ptr - 1 else 0)
            in bindE (triangle m offset) (\<lambda>tri. Inr (tsample tri u2 u3, m)))
             = Inr (tsample (tris ! nat (max 0 (int position - 1))) u2 u3, m)
         \<and> position < length (m_areaCache m)
         \<and> u1 \<le> m_areaCache m ! position
         \<and> (\<forall>i<position. m_areaCache m ! i < u1)
         \<and> nat (max 0 (int position - 1)) < numberOfFaces m"
  proof (rule sample_with_cache [OF assms(1,2,5) _ len props])
    have "m = m\<lparr>m_areaCache := m_areaCache m\<rparr>" by simp
    then show "\<exists>c. m = m\<lparr>m_areaCache := c\<rparr>" by (rule exI)
  qed
  then obtain position where
    "(let ptr = lower_bound (m_areaCache m) u1;
                offset = (if 0 < ptr then ptr - 1 else 0)
            in bindE (triangle m offset) (\<lambda>tri. Inr (tsample tri u2 u3, m)))
             = Inr (tsample (tris ! nat (max 0 (int position - 1))) u2 u3, m)"
    "position < length (m_areaCache m)" "u1 \<le> m_areaCache m ! position"
    "\<forall>i<position. m_areaCache m ! i < u1"
    "nat (max 0 (int position - 1)) < numberOfFaces m"
    by blast
  moreover from this(1) have "sample tsample m u1 u2 u3
             = Inr (tsample (tris ! nat (max 0 (int position - 1))) u2 u3, m)"
    using len by (simp add: sample_def)
  ultimately show ?thesis
    using len by (intro exI [of _ m] exI [of _ position]) simp
qed

lemma computeAreaCacheP_twoFaces:
  "computeAreaCacheP twoFaces = Inr (twoFaces\<lparr>m_areaCache := [0, 1 / 2, 1]\<rparr>)"
proof -
  let ?tris = "[\<lparr>points = (Vector3D 1 0 0, Vector3D 1 1 0, Vector3D 1 0 1),
       normals = (Some (Vector3D 1 0 0), Some (Vector3D 1 0 0), Some (Vector3D 1 0 0)),
       uvs = (Vector2D 0 0, Vector2D 0 0, Vector2D 0 0)\<rparr>,
       \<lparr>points = (Vector3D 0 1 0, Vector3D 0 2 0, Vector3D 0 1 1),
       normals = (Some (Vector3D 1 0 0), Some (Vector3D 1 0 0), Some (Vector3D 1 0 0)),
       uvs = (Vector2D 0 0, Vector2D 0 0, Vector2D 0 0)\<rparr>]"
  have n: "numberOfFaces twoFaces = 2"
    by (simp add: numberOfFaces_def twoFaces_def)
  have tris: "map (triangle twoFaces) [0..<numberOfFaces twoFaces] = map Inr ?tris"
    using triangle_twoFaces_0 triangle_twoFaces_1
    by (simp add: n upt_rec)
  have pos: "0 < sum_list (map area ?tris)"
    by (simp add: area_tri0 area_tri1)
  have raw: "map (\<lambda>i. sum_list (map area (take i ?tris))) [0..<numberOfFaces twoFaces + 1]
      = [0, 1 / 2, 1]"
    by (simp add: n upt_rec area_tri0 area_tri1 numeral_2_eq_2)
  have cache: "map (\<lambda>x. x / [0, 1 / 2, 1 :: real] ! numberOfFaces twoFaces) [0, 1 / 2, 1]
      = [0, 1 / 2, 1 :: real]"
    by (simp add: n)
  from computeAreaCache_table [OF tris pos raw [symmetric] cache [symmetric]]
  show ?thesis by simp
qed

text \<open>With \<open>u1 = 3/4\<close> the cache \<open>[0, 1/2, 1]\<close> of \<open>twoFaces\<close> gives position 2 and face 1.\<close>

theorem sample_selects_face_witness:
  "sample sampleFirstVertex twoFaces (3 / 4) 0 0
     = Inr ((Vector3D 0 1 0, Vector3D 0 0 1), twoFaces\<lparr>m_areaCache := [0, 1 / 2, 1]\<rparr>)"
proof -
  let ?tris = "[\<lparr>points = (Vector3D 1 0 0, Vector3D 1 1 0, Vector3D 1 0 1),
       normals = (Some (Vector3D 1 0 0), Some (Vector3D 1 0 0), Some (Vector3D 1 0 0)),
       uvs = (Vector2D 0 0, Vector2D 0 0, Vector2D 0 0)\<rparr>,
       \<lparr>points = (Vector3D 0 1 0, Vector3D 0 2 0, Vector3D 0 1 1),
       normals = (Some (Vector3D 1 0 0), Some (Vector3D 1 0 0), Some (Vector3D 1 0 0)),
       uvs = (Vector2D 0 0, Vector2D 0 0, Vector2D 0 0)\<rparr>]"
  have n: "numberOfFaces twoFaces = 2"
    by (simp add: numberOfFaces_def twoFaces_def)
  have tris: "map (triangle twoFaces) [0..<numberOfFaces twoFaces] = map Inr ?tris"
    using triangle_twoFaces_0 triangle_twoFaces_1
    by (simp add: n upt_rec)
  have pos: "0 < sum_list (map area ?tris)"
    by (simp add: area_tri0 area_tri1)
  have stale: "length (m_areaCache twoFaces) \<noteq> numberOfFaces twoFaces + 1"
    by (simp add: n) (simp add: twoFaces_def)
  from sample_selects_face [OF tris _ pos, of "3 / 4" sampleFirstVertex 0 0] stale n
  obtain m' position where
    s: "sample sampleFirstVertex twoFaces (3 / 4) 0 0
          = Inr (sampleFirstVertex (?tris ! nat (max 0 (int position - 1))) 0 0, m')"
    and m': "computeAreaCacheP twoFaces = Inr m'"
    and p: "position < length (m_areaCache m')" "3 / 4 \<le> m_areaCache m' ! position"
    by auto
  from m' have m'_eq: "m' = twoFaces\<lparr>m_areaCache := [0, 1 / 2, 1]\<rparr>"
    by (simp add: computeAreaCacheP_twoFaces)
  with p have "position = 2"
    by (auto simp: less_Suc_eq numeral_3_eq_3)
  with s m'_eq show ?thesis
    by (simp add: sampleFirstVertex_def)
qed

subsection \<open>The text written\<close>

lemma writeObj_points_lines:
  "writeObj_points sd strm pts = strm @ concat (map (obj_point_line sd) pts)"
  by (induction pts arbitrary: strm)
     (simp_all add: obj_point_line_def Vector3D_out_def std_endl_def)

lemma writeObj_uvs_lines:
  "writeObj_uvs sd strm ts = strm @ concat (map (obj_uv_line sd) ts)"
  by (induction ts arbitrary: strm)
     (simp_all add: obj_uv_line_def Vector2D_out_def std_endl_def)

lemma writeObj_normals_lines:
  "writeObj_normals sd strm ns = strm @ concat (map (obj_normal_line sd) ns)"
  by (induction ns arbitrary: strm)
     (simp_all add: obj_normal_line_def Vector3D_nan_out_def std_endl_def)

lemma size_t_out_one_based: "w + 1 \<noteq> 0 \<Longrightarrow> size_t_out (w + 1) = showNat (unat w + 1)"
  using unatSuc [of w] by (simp add: size_t_out_def add.commute)

lemma at3_cases: "at3 f j = at3 f 0 \<or> at3 f j = at3 f 1 \<or> at3 f j = at3 f 2"
  by (cases f) auto

lemma writable_no_wrap:
  assumes "writable m"
    and "f \<in> set (m_pointIndices m) \<union> set (m_uvIndices m) \<union> set (m_normalIndices m)"
  shows "at3 f j + 1 \<noteq> 0"
proof -
  from assms have "at3 f 0 + 1 \<noteq> 0 \<and> at3 f 1 + 1 \<noteq> 0 \<and> at3 f 2 + 1 \<noteq> 0"
    unfolding writable_def by blast
  with at3_cases [of f j] show ?thesis by auto
qed

lemma writeObj_face_vertices_text:
  assumes "writable m" and "i < numberOfFaces m"
  shows "writeObj_face_vertices m i js strm
           = Inr (strm @ concat (map (obj_face_vertex m i) js))"
proof (induction js arbitrary: strm)
  case Nil
  show ?case by simp
next
  case (Cons j js)
  have p: "array_at (m_pointIndices m) i = Inr (m_pointIndices m ! i)"
    using assms(2) by (simp add: array_at_def numberOfFaces_def)
  have pw: "size_t_out (at3 (m_pointIndices m ! i) j + 1)
      = showNat (unat (at3 (m_pointIndices m ! i) j) + 1)"
    using assms(2) by (intro size_t_out_one_based writable_no_wrap [OF assms(1)])
      (simp add: numberOfFaces_def)
  have t: "array_at (m_uvIndices m) i = Inr (m_uvIndices m ! i)"
    and tw: "size_t_out (at3 (m_uvIndices m ! i) j + 1)
      = showNat (unat (at3 (m_uvIndices m ! i) j) + 1)" if "hasUvs m"
  proof -
    from that assms have i: "i < length (m_uvIndices m)" by (simp add: writable_def)
    then show "array_at (m_uvIndices m) i = Inr (m_uvIndices m ! i)"
      by (simp add: array_at_def)
    from i show "size_t_out (at3 (m_uvIndices m ! i) j + 1)
      = showNat (unat (at3 (m_uvIndices m ! i) j) + 1)"
      by (intro size_t_out_one_based writable_no_wrap [OF assms(1)]) simp
  qed
  have n: "array_at (m_normalIndices m) i = Inr (m_normalIndices m ! i)"
    and nw: "size_t_out (at3 (m_normalIndices m ! i) j + 1)
      = showNat (unat (at3 (m_normalIndices m ! i) j) + 1)" if "hasNormals m"
  proof -
    from that assms have i: "i < length (m_normalIndices m)" by (simp add: writable_def)
    then show "array_at (m_normalIndices m) i = Inr (m_normalIndices m ! i)"
      by (simp add: array_at_def)
    from i show "size_t_out (at3 (m_normalIndices m ! i) j + 1)
      = showNat (unat (at3 (m_normalIndices m ! i) j) + 1)"
      by (intro size_t_out_one_based writable_no_wrap [OF assms(1)]) simp
  qed
  show ?case
    by (cases "hasUvs m"; cases "hasNormals m")
       (simp_all add: p pw t tw n nw Cons.IH obj_face_vertex_def Let_def)
qed

lemma writeObj_faces_text:
  assumes "writable m" and "\<forall>i\<in>set is. i < numberOfFaces m"
  shows "writeObj_faces m is strm = Inr (strm @ concat (map (obj_face_line m) is))"
  using assms(2)
proof (induction "is" arbitrary: strm)
  case Nil
  show ?case by simp
next
  case (Cons i "is")
  have "[0..<3] = [0, 1, 2]" by (simp add: upt_rec)
  then have "writeObj_face_vertices m i [0..<3] (strm @ ''f '')
      = Inr (strm @ ''f '' @ obj_face_vertex m i 0 @ obj_face_vertex m i 1
             @ obj_face_vertex m i 2)"
    using writeObj_face_vertices_text [OF assms(1), of i "[0, 1, 2]" "strm @ ''f ''"] Cons.prems
    by simp
  then show ?case
    using Cons by (simp add: obj_face_line_def std_endl_def)
qed

text \<open>
  C8. For a mesh that has a uv (normal) index triple for every face when it has uvs
  (normals), \<open>writeObj\<close> appends to the stream one \<open>v x y z\<close> line per position, then
  one \<open>vt u v\<close> line per uv, then one \<open>vn x y z\<close> line per normal, then one face line per
  face in face order. A face line lists the three vertices in declaration order; each
  vertex is its position index plus one, followed by the uv and normal slots exactly
  when the mesh has uvs respectively normals, those indices plus one as well.
\<close>

theorem writeObj_text:
  assumes "writable m"
  shows "writeObj sd m strm =
     Inr (strm @ concat (map (obj_point_line sd) (m_points m))
               @ concat (map (obj_uv_line sd) (m_uvs m))
               @ concat (map (obj_normal_line sd) (m_normals m))
               @ concat (map (obj_face_line m) [0..<numberOfFaces m]))"
  using writeObj_faces_text [OF assms, of "[0..<numberOfFaces m]"]
  by (simp add: writeObj_def writeObj_points_lines writeObj_uvs_lines writeObj_normals_lines)

lemma writable_texturedTriangle: "writable texturedTriangle"
  by (simp add: writable_def texturedTriangle_def numberOfFaces_def)

theorem writeObj_text_witness:
  "writeObj showWhole texturedTriangle [] =
     Inr (''v 0 0 0'' @ [CHR 0x0A] @ ''v 1 0 0'' @ [CHR 0x0A] @ ''v 0 1 0'' @ [CHR 0x0A]
          @ ''vt 0 0'' @ [CHR 0x0A] @ ''vn 0 0 1'' @ [CHR 0x0A]
          @ ''f 1/1/1 2/1/1 3/1/1 '' @ [CHR 0x0A])"
  using writeObj_text [OF writable_texturedTriangle, of showWhole "[]"]
  by (simp add: texturedTriangle_def numberOfFaces_def obj_point_line_def obj_uv_line_def
      obj_normal_line_def obj_face_line_def obj_face_vertex_def hasUvs_def hasNormals_def
      showWhole_def digit_char_def)

subsection \<open>Flat normals\<close>

lemma bindE_Inr_iff: "bindE x f = Inr y \<longleftrightarrow> (\<exists>v. x = Inr v \<and> f v = Inr y)"
  by (cases x) auto

lemma array_at_Inr_iff: "array_at xs i = Inr x \<longleftrightarrow> i < length xs \<and> x = xs ! i"
  by (auto simp: array_at_def)

lemma gather3_Inr_iff:
  "gather3 xs f = Inr t \<longleftrightarrow>
     unat (at3 f 0) < length xs \<and> unat (at3 f 1) < length xs \<and> unat (at3 f 2) < length xs
     \<and> t = (xs ! unat (at3 f 0), xs ! unat (at3 f 1), xs ! unat (at3 f 2))"
  by (auto simp: gather3_def bindE_Inr_iff array_at_Inr_iff)

lemma faceNormal_points: "points tri' = points tri \<Longrightarrow> faceNormal tri' = faceNormal tri"
  by (simp add: faceNormal_def)

lemma triangle_Inr_points:
  assumes "triangle m i = Inr tri"
  shows "i < length (m_pointIndices m)
       \<and> unat (at3 (m_pointIndices m ! i) 0) < length (m_points m)
       \<and> unat (at3 (m_pointIndices m ! i) 1) < length (m_points m)
       \<and> unat (at3 (m_pointIndices m ! i) 2) < length (m_points m)"
  using assms
  by (auto simp: triangle_def bindE_Inr_iff array_at_Inr_iff gather3_Inr_iff Let_def)

lemma triangle_normals_update:
  assumes "triangle m i = Inr tri"
    and "length N = length (m_normals m)"
    and "hasNormals m"
  shows "\<exists>tri'. triangle (m\<lparr>m_normals := N\<rparr>) i = Inr tri' \<and> points tri' = points tri"
  using assms
  by (auto simp: triangle_def bindE_Inr_iff array_at_Inr_iff gather3_Inr_iff hasNormals_def
      hasUvs_def Let_def split: if_splits)

lemma bindE_assoc: "bindE (bindE x f) g = bindE x (\<lambda>v. bindE (f v) g)"
  by (cases x) simp_all

lemma setFaceNormal_loop_append:
  "setFaceNormal_loop (xs @ ys) m = bindE (setFaceNormal_loop xs m) (setFaceNormal_loop ys)"
  by (induction xs arbitrary: m) (simp_all add: bindE_assoc Let_def)

lemma list_update3_nth:
  assumes "a < length xs" "b < length xs" "c < length xs"
  shows "xs[a := n, b := n, c := n] ! v = (if v = a \<or> v = b \<or> v = c then n else xs ! v)"
  using assms by (auto simp: nth_list_update)

lemma setFaceNormal_loop_prefix:
  assumes tris: "map (triangle m1) [0..<numberOfFaces m1] = map Inr tris"
    and len: "length (m_normals m1) = length (m_points m1)"
    and k: "k \<le> numberOfFaces m1"
  shows "\<exists>N. setFaceNormal_loop [0..<k] m1 = Inr (m1\<lparr>m_normals := N\<rparr>)
           \<and> length N = length (m_points m1)
           \<and> (\<forall>v i. i < k \<and> cornerOf (m_pointIndices m1 ! i) v
                  \<and> (\<forall>j. i < j \<and> j < k \<longrightarrow> \<not> cornerOf (m_pointIndices m1 ! j) v)
                  \<longrightarrow> N ! v = faceNormal (tris ! i))
           \<and> (\<forall>v. (\<forall>i<k. \<not> cornerOf (m_pointIndices m1 ! i) v) \<longrightarrow> N ! v = m_normals m1 ! v)"
  using k
proof (induction k)
  case 0
  have "m1 = m1\<lparr>m_normals := m_normals m1\<rparr>" by simp
  then have "setFaceNormal_loop [0..<0] m1 = Inr (m1\<lparr>m_normals := m_normals m1\<rparr>)" by simp
  then show ?case using len by (intro exI [of _ "m_normals m1"]) simp
next
  case (Suc k)
  then obtain N where N: "setFaceNormal_loop [0..<k] m1 = Inr (m1\<lparr>m_normals := N\<rparr>)"
    "length N = length (m_points m1)"
    "\<forall>v i. i < k \<and> cornerOf (m_pointIndices m1 ! i) v
        \<and> (\<forall>j. i < j \<and> j < k \<longrightarrow> \<not> cornerOf (m_pointIndices m1 ! j) v) \<longrightarrow> N ! v = faceNormal (tris ! i)"
    "\<forall>v. (\<forall>i<k. \<not> cornerOf (m_pointIndices m1 ! i) v) \<longrightarrow> N ! v = m_normals m1 ! v"
    by auto
  let ?n = "numberOfFaces m1"
  let ?f = "m_pointIndices m1 ! k"
  let ?a = "unat (at3 ?f 0)" and ?b = "unat (at3 ?f 1)" and ?c = "unat (at3 ?f 2)"
  have kn: "k < ?n" using Suc.prems by simp
  have ltris: "length tris = ?n" using tris by (metis length_map length_upt diff_zero)
  have "map (triangle m1) [0..<?n] ! k = map Inr tris ! k" using tris by simp
  then have tri: "triangle m1 k = Inr (tris ! k)" using kn ltris by simp
  from triangle_Inr_points [OF tri]
  have rng: "k < length (m_pointIndices m1)" "?a < length (m_points m1)"
    "?b < length (m_points m1)" "?c < length (m_points m1)"
    by simp_all
  have hn: "hasNormals m1" using rng(2) len by (auto simp: hasNormals_def)
  obtain tri' where tri': "triangle (m1\<lparr>m_normals := N\<rparr>) k = Inr tri'"
    "points tri' = points (tris ! k)"
    using triangle_normals_update [OF tri _ hn, of N] N(2) len by auto
  have fn': "faceNormal tri' = faceNormal (tris ! k)"
    by (rule faceNormal_points [OF tri'(2)])
  let ?N' = "N[?a := faceNormal (tris ! k), ?b := faceNormal (tris ! k), ?c := faceNormal (tris ! k)]"
  have step: "setFaceNormal_loop [k] (m1\<lparr>m_normals := N\<rparr>) = Inr (m1\<lparr>m_normals := ?N'\<rparr>)"
    using tri'(1) fn' rng N(2) by (simp add: array_at_def array_set_def Let_def)
  have "[0..<Suc k] = [0..<k] @ [k]" by simp
  then have run: "setFaceNormal_loop [0..<Suc k] m1 = Inr (m1\<lparr>m_normals := ?N'\<rparr>)"
    using N(1) step by (simp only: setFaceNormal_loop_append bindE.simps)
  have nth: "?N' ! v = (if cornerOf ?f v then faceNormal (tris ! k) else N ! v)" for v
    using list_update3_nth [of ?a N ?b ?c "faceNormal (tris ! k)" v] rng N(2)
    by (auto simp: cornerOf_def)
  have last: "\<forall>v i. i < Suc k \<and> cornerOf (m_pointIndices m1 ! i) v
        \<and> (\<forall>j. i < j \<and> j < Suc k \<longrightarrow> \<not> cornerOf (m_pointIndices m1 ! j) v)
        \<longrightarrow> ?N' ! v = faceNormal (tris ! i)"
  proof (intro allI impI)
    fix v i
    assume a: "i < Suc k \<and> cornerOf (m_pointIndices m1 ! i) v
        \<and> (\<forall>j. i < j \<and> j < Suc k \<longrightarrow> \<not> cornerOf (m_pointIndices m1 ! j) v)"
    show "?N' ! v = faceNormal (tris ! i)"
    proof (cases "i = k")
      case True
      with a nth show ?thesis by simp
    next
      case False
      with a have ik: "i < k" by simp
      with a have "\<not> cornerOf ?f v" by simp
      moreover have "N ! v = faceNormal (tris ! i)" using N(3) a ik by simp
      ultimately show ?thesis using nth by simp
    qed
  qed
  have none: "\<forall>v. (\<forall>i<Suc k. \<not> cornerOf (m_pointIndices m1 ! i) v)
        \<longrightarrow> ?N' ! v = m_normals m1 ! v"
    using N(4) nth by simp
  show ?case
    using run N(2) last none by (intro exI [of _ ?N']) simp
qed

text \<open>
  C5. \<open>setFaceNormal\<close> gives the normals one slot per position, makes \<open>normalFaces\<close> a
  copy of \<open>positionFaces\<close> and, face by face in insertion order, stores the face's
  flat normal at its three vertices. Provided every face materialises, the normal of a
  vertex in the end is the flat normal of the last face it is a corner of; a vertex of
  no face keeps the slot the resize left.
\<close>

theorem setFaceNormal_last_writer:
  assumes "m1 = m\<lparr>m_normals := resize (m_normals m) (numberOfPoints m)
                                    (Some (Vector3D 0 0 0)),
                   m_normalIndices := m_pointIndices m\<rparr>"
    and "map (triangle m1) [0..<numberOfFaces m] = map Inr tris"
  shows "\<exists>N. setFaceNormal m = Inr (m\<lparr>m_normals := N, m_normalIndices := m_pointIndices m\<rparr>)
           \<and> length N = numberOfPoints m
           \<and> (\<forall>v i. i < numberOfFaces m \<and> cornerOf (m_pointIndices m ! i) v
                  \<and> (\<forall>j. i < j \<and> j < numberOfFaces m \<longrightarrow> \<not> cornerOf (m_pointIndices m ! j) v)
                  \<longrightarrow> N ! v = faceNormal (tris ! i))
           \<and> (\<forall>v. (\<forall>i<numberOfFaces m. \<not> cornerOf (m_pointIndices m ! i) v)
                  \<longrightarrow> N ! v = resize (m_normals m) (numberOfPoints m) (Some (Vector3D 0 0 0)) ! v)"
proof -
  have n: "numberOfFaces m1 = numberOfFaces m" by (simp add: assms(1) numberOfFaces_def)
  have len: "length (m_normals m1) = length (m_points m1)"
    by (simp add: assms(1) resize_def numberOfPoints_def)
  from setFaceNormal_loop_prefix [OF _ len order_refl] assms(2) n
  obtain N where N: "setFaceNormal_loop [0..<numberOfFaces m1] m1 = Inr (m1\<lparr>m_normals := N\<rparr>)"
    "length N = length (m_points m1)"
    "\<forall>v i. i < numberOfFaces m1 \<and> cornerOf (m_pointIndices m1 ! i) v
        \<and> (\<forall>j. i < j \<and> j < numberOfFaces m1 \<longrightarrow> \<not> cornerOf (m_pointIndices m1 ! j) v)
        \<longrightarrow> N ! v = faceNormal (tris ! i)"
    "\<forall>v. (\<forall>i<numberOfFaces m1. \<not> cornerOf (m_pointIndices m1 ! i) v)
        \<longrightarrow> N ! v = m_normals m1 ! v"
    by auto
  have "setFaceNormal m = setFaceNormal_loop [0..<numberOfFaces m1] m1"
    by (simp add: setFaceNormal_def assms(1) numberOfPoints_def Let_def)
  moreover have "m1\<lparr>m_normals := N\<rparr> = m\<lparr>m_normals := N, m_normalIndices := m_pointIndices m\<rparr>"
    by (simp add: assms(1))
  ultimately have "setFaceNormal m
      = Inr (m\<lparr>m_normals := N, m_normalIndices := m_pointIndices m\<rparr>)"
    using N(1) by simp
  moreover have "length N = numberOfPoints m"
    using N(2) by (simp add: assms(1) numberOfPoints_def)
  moreover have "\<forall>v i. i < numberOfFaces m \<and> cornerOf (m_pointIndices m ! i) v
                  \<and> (\<forall>j. i < j \<and> j < numberOfFaces m \<longrightarrow> \<not> cornerOf (m_pointIndices m ! j) v)
                  \<longrightarrow> N ! v = faceNormal (tris ! i)"
    using N(3) n by (simp add: assms(1))
  moreover have "\<forall>v. (\<forall>i<numberOfFaces m. \<not> cornerOf (m_pointIndices m ! i) v)
                  \<longrightarrow> N ! v = resize (m_normals m) (numberOfPoints m) (Some (Vector3D 0 0 0)) ! v"
    using N(4) n by (simp add: assms(1))
  ultimately show ?thesis by blast
qed

lemma sharedEdge_triangles:
  "map (triangle (sharedEdge\<lparr>m_normals := resize (m_normals sharedEdge)
            (numberOfPoints sharedEdge) (Some (Vector3D 0 0 0)),
          m_normalIndices := m_pointIndices sharedEdge\<rparr>)) [0..<numberOfFaces sharedEdge]
   = map Inr [\<lparr>points = (Vector3D 0 0 0, Vector3D 1 0 0, Vector3D 0 1 0),
       normals = (Some (Vector3D 0 0 0), Some (Vector3D 0 0 0), Some (Vector3D 0 0 0)),
       uvs = (Vector2D 0 0, Vector2D 0 0, Vector2D 0 0)\<rparr>,
      \<lparr>points = (Vector3D 0 0 0, Vector3D 0 0 1, Vector3D 1 0 0),
       normals = (Some (Vector3D 0 0 0), Some (Vector3D 0 0 0), Some (Vector3D 0 0 0)),
       uvs = (Vector2D 0 0, Vector2D 0 0, Vector2D 0 0)\<rparr>]"
  by (simp add: sharedEdge_def numberOfFaces_def numberOfPoints_def resize_def upt_rec
      triangle_def array_at_def gather3_def hasUvs_def hasNormals_def Let_def)

lemma sharedEdge_faceNormals:
  "faceNormal \<lparr>points = (Vector3D 0 0 0, Vector3D 1 0 0, Vector3D 0 1 0),
       normals = (Some (Vector3D 0 0 0), Some (Vector3D 0 0 0), Some (Vector3D 0 0 0)),
       uvs = (Vector2D 0 0, Vector2D 0 0, Vector2D 0 0)\<rparr> = Some (Vector3D 0 0 1)"
  "faceNormal \<lparr>points = (Vector3D 0 0 0, Vector3D 0 0 1, Vector3D 1 0 0),
       normals = (Some (Vector3D 0 0 0), Some (Vector3D 0 0 0), Some (Vector3D 0 0 0)),
       uvs = (Vector2D 0 0, Vector2D 0 0, Vector2D 0 0)\<rparr> = Some (Vector3D 0 1 0)"
  by (simp_all add: faceNormal_def normalize_def Vector3D_div_def cross_def Vector3D_sub_def
      length3_def lengthSquared_def)

theorem setFaceNormal_last_writer_witness:
  "setFaceNormal sharedEdge
     = Inr (sharedEdge\<lparr>m_normals := [Some (Vector3D 0 1 0), Some (Vector3D 0 1 0),
                                       Some (Vector3D 0 0 1), Some (Vector3D 0 1 0)],
                       m_normalIndices := [(0, 1, 2), (0, 3, 1)]\<rparr>)"
proof -
  let ?tris = "[\<lparr>points = (Vector3D 0 0 0, Vector3D 1 0 0, Vector3D 0 1 0),
       normals = (Some (Vector3D 0 0 0), Some (Vector3D 0 0 0), Some (Vector3D 0 0 0)),
       uvs = (Vector2D 0 0, Vector2D 0 0, Vector2D 0 0)\<rparr>,
      \<lparr>points = (Vector3D 0 0 0, Vector3D 0 0 1, Vector3D 1 0 0),
       normals = (Some (Vector3D 0 0 0), Some (Vector3D 0 0 0), Some (Vector3D 0 0 0)),
       uvs = (Vector2D 0 0, Vector2D 0 0, Vector2D 0 0)\<rparr>]"
  from setFaceNormal_last_writer [OF refl sharedEdge_triangles]
  obtain N where run: "setFaceNormal sharedEdge
        = Inr (sharedEdge\<lparr>m_normals := N, m_normalIndices := m_pointIndices sharedEdge\<rparr>)"
    and len: "length N = numberOfPoints sharedEdge"
    and last: "\<And>v i. i < numberOfFaces sharedEdge \<Longrightarrow> cornerOf (m_pointIndices sharedEdge ! i) v
        \<Longrightarrow> (\<forall>j. i < j \<and> j < numberOfFaces sharedEdge
              \<longrightarrow> \<not> cornerOf (m_pointIndices sharedEdge ! j) v)
        \<Longrightarrow> N ! v = faceNormal (?tris ! i)"
    by blast
  have n: "numberOfFaces sharedEdge = 2" "numberOfPoints sharedEdge = 4"
    "m_pointIndices sharedEdge = [(0, 1, 2), (0, 3, 1)]"
    by (simp_all add: sharedEdge_def numberOfFaces_def numberOfPoints_def)
  have "N ! 0 = Some (Vector3D 0 1 0)"
    using last [of 1 0] by (simp add: n cornerOf_def sharedEdge_faceNormals)
  moreover have "N ! 1 = Some (Vector3D 0 1 0)"
    using last [of 1 1] by (simp add: n cornerOf_def sharedEdge_faceNormals)
  moreover have "N ! 2 = Some (Vector3D 0 0 1)"
  proof -
    have "\<forall>j. 0 < j \<and> j < numberOfFaces sharedEdge
              \<longrightarrow> \<not> cornerOf (m_pointIndices sharedEdge ! j) 2"
    proof (intro allI impI)
      fix j assume "0 < j \<and> j < numberOfFaces sharedEdge"
      then have "j = 1" using n(1) by simp
      then show "\<not> cornerOf (m_pointIndices sharedEdge ! j) 2"
        by (simp add: n cornerOf_def)
    qed
    with last [of 0 2] show ?thesis by (simp add: n cornerOf_def sharedEdge_faceNormals)
  qed
  moreover have "N ! 3 = Some (Vector3D 0 1 0)"
    using last [of 1 3] by (simp add: n cornerOf_def sharedEdge_faceNormals)
  ultimately have "N = [Some (Vector3D 0 1 0), Some (Vector3D 0 1 0), Some (Vector3D 0 0 1),
      Some (Vector3D 0 1 0)]"
    using len n(2) by (intro nth_equalityI) (auto simp: less_Suc_eq eval_nat_numeral)
  with run n(3) show ?thesis by simp
qed

subsection \<open>Angle-weighted normals\<close>

lemma clamp_range: "- 1 \<le> clamp x (- 1) 1 \<and> clamp x (- 1) 1 \<le> 1"
  by (simp add: clamp_def)

lemma cornerAngleNormal_angle:
  "fst (cornerAngleNormal ar p q r)
     = map_option (\<lambda>d. arccos (clamp d (- 1) 1)) (cornerDot ar p q r)"
  using clamp_range
  by (cases "cornerDot ar p q r")
     (simp_all add: cornerAngleNormal_def cornerDot_def Let_def clamp_nan_def std_acos_def)

lemma cornerAngleNormal_nonneg:
  assumes "fst (cornerAngleNormal ar p q r) = Some a"
  shows "0 \<le> a"
proof -
  from assms obtain d where "a = arccos (clamp d (- 1) 1)"
    by (auto simp: cornerAngleNormal_angle)
  then show ?thesis using clamp_range [of d] by (simp add: arccos_lbound)
qed

lemma addCorner_update:
  assumes "idx < length aw" and "length pn = length aw"
  shows "addCorner (aw, pn) idx c
     = Inr (aw[idx := nan2 (+) (aw ! idx) (fst c)],
            pn[idx := nan2 Vector3D_add (pn ! idx) (nan2 Vector3D_scale (fst c) (snd c))])"
  using assms by (cases c) (simp add: addCorner_def array_at_def array_set_def)

lemma angleSum_append: "angleSum w (xs @ ys) = angleSum (angleSum w xs) ys"
  by (simp add: angleSum_def)

lemma weightedSum_append: "weightedSum s (xs @ ys) = weightedSum (weightedSum s xs) ys"
  by (simp add: weightedSum_def)

lemma cornersIn_append:
  "cornersIn ar m (xs @ ys) v = cornersIn ar m xs v @ cornersIn ar m ys v"
  by (simp add: cornersIn_def)

lemma positionsInRange_face:
  assumes "positionsInRange m" and "k < numberOfFaces m"
  shows "unat (at3 (m_pointIndices m ! k) 0) < length (m_points m)
       \<and> unat (at3 (m_pointIndices m ! k) 1) < length (m_points m)
       \<and> unat (at3 (m_pointIndices m ! k) 2) < length (m_points m)"
  using assms by (simp add: positionsInRange_def numberOfFaces_def numberOfPoints_def)

lemma angleWeighted_face:
  assumes rng: "positionsInRange m" and k: "k < numberOfFaces m"
    and len: "length aw = length (m_points m)" "length pn = length (m_points m)"
  shows "\<exists>aw' pn'. angleWeighted_loop ar m [k] (aw, pn) = Inr (aw', pn')
           \<and> length aw' = length (m_points m) \<and> length pn' = length (m_points m)
           \<and> (\<forall>v<length (m_points m).
                 aw' ! v = angleSum (aw ! v) (cornersIn ar m [k] v)
               \<and> pn' ! v = weightedSum (pn ! v) (cornersIn ar m [k] v))"
proof -
  let ?P = "length (m_points m)"
  let ?idx = "m_pointIndices m ! k"
  let ?i0 = "unat (at3 ?idx 0)" and ?i1 = "unat (at3 ?idx 1)" and ?i2 = "unat (at3 ?idx 2)"
  let ?p0 = "m_points m ! ?i0" and ?p1 = "m_points m ! ?i1" and ?p2 = "m_points m ! ?i2"
  let ?c0 = "cornerAngleNormal ar ?p0 ?p1 ?p2"
  let ?c1 = "cornerAngleNormal ar ?p1 ?p2 ?p0"
  let ?c2 = "cornerAngleNormal ar ?p2 ?p0 ?p1"
  from positionsInRange_face [OF rng k]
  have r: "?i0 < ?P" "?i1 < ?P" "?i2 < ?P" by simp_all
  have idx: "array_at (m_pointIndices m) k = Inr ?idx"
    using k by (simp add: array_at_def numberOfFaces_def)
  have pts: "gather3 (m_points m) ?idx = Inr (?p0, ?p1, ?p2)"
    using r by (simp add: gather3_def array_at_def)
  let ?aw0 = "aw[?i0 := nan2 (+) (aw ! ?i0) (fst ?c0)]"
  let ?pn0 = "pn[?i0 := nan2 Vector3D_add (pn ! ?i0) (nan2 Vector3D_scale (fst ?c0) (snd ?c0))]"
  let ?aw1 = "?aw0[?i1 := nan2 (+) (?aw0 ! ?i1) (fst ?c1)]"
  let ?pn1 = "?pn0[?i1 := nan2 Vector3D_add (?pn0 ! ?i1) (nan2 Vector3D_scale (fst ?c1) (snd ?c1))]"
  let ?aw2 = "?aw1[?i2 := nan2 (+) (?aw1 ! ?i2) (fst ?c2)]"
  let ?pn2 = "?pn1[?i2 := nan2 Vector3D_add (?pn1 ! ?i2) (nan2 Vector3D_scale (fst ?c2) (snd ?c2))]"
  have s0: "addCorner (aw, pn) ?i0 ?c0 = Inr (?aw0, ?pn0)"
    using r len by (intro addCorner_update) simp_all
  have s1: "addCorner (?aw0, ?pn0) ?i1 ?c1 = Inr (?aw1, ?pn1)"
    using r len by (intro addCorner_update) simp_all
  have s2: "addCorner (?aw1, ?pn1) ?i2 ?c2 = Inr (?aw2, ?pn2)"
    using r len by (intro addCorner_update) simp_all
  have run: "angleWeighted_loop ar m [k] (aw, pn) = Inr (?aw2, ?pn2)"
    using idx pts s0 s1 s2 by simp
  have fc: "faceCorners ar m k = [(?i0, ?c0), (?i1, ?c1), (?i2, ?c2)]"
    by (simp add: faceCorners_def Let_def)
  have "?aw2 ! v = angleSum (aw ! v) (cornersIn ar m [k] v)
      \<and> ?pn2 ! v = weightedSum (pn ! v) (cornersIn ar m [k] v)" if "v < ?P" for v
    using that r len by (simp add: cornersIn_def fc angleSum_def weightedSum_def nth_list_update)
  with run len show ?thesis by simp
qed

lemma angleWeighted_loop_append:
  "angleWeighted_loop ar m (xs @ ys) st
     = bindE (angleWeighted_loop ar m xs st) (angleWeighted_loop ar m ys)"
proof (induction xs arbitrary: st)
  case Nil
  show ?case by simp
next
  case (Cons i xs)
  have "angleWeighted_loop ar m (xs @ ys)
      = (\<lambda>st. bindE (angleWeighted_loop ar m xs st) (angleWeighted_loop ar m ys))"
    by (rule ext) (rule Cons.IH)
  then show ?case by (simp add: bindE_assoc)
qed

lemma angleWeighted_loop_prefix:
  assumes rng: "positionsInRange m" and k: "k \<le> numberOfFaces m"
  shows "\<exists>aw pn. angleWeighted_loop ar m [0..<k]
              (replicate (length (m_points m)) (Some 0),
               replicate (length (m_points m)) (Some (Vector3D 0 0 0))) = Inr (aw, pn)
           \<and> length aw = length (m_points m) \<and> length pn = length (m_points m)
           \<and> (\<forall>v<length (m_points m).
                 aw ! v = angleSum (Some 0) (cornersIn ar m [0..<k] v)
               \<and> pn ! v = weightedSum (Some (Vector3D 0 0 0)) (cornersIn ar m [0..<k] v))"
  using k
proof (induction k)
  case 0
  show ?case by (simp add: cornersIn_def angleSum_def weightedSum_def)
next
  case (Suc k)
  let ?P = "length (m_points m)"
  let ?st = "(replicate ?P (Some (0::real)), replicate ?P (Some (Vector3D 0 0 0)))"
  from Suc obtain aw pn where st: "angleWeighted_loop ar m [0..<k] ?st = Inr (aw, pn)"
    "length aw = ?P" "length pn = ?P"
    "\<forall>v<?P. aw ! v = angleSum (Some 0) (cornersIn ar m [0..<k] v)
          \<and> pn ! v = weightedSum (Some (Vector3D 0 0 0)) (cornersIn ar m [0..<k] v)"
    by auto
  have "k < numberOfFaces m" using Suc.prems by simp
  from angleWeighted_face [OF rng this st(2,3), of ar]
  obtain aw' pn' where step: "angleWeighted_loop ar m [k] (aw, pn) = Inr (aw', pn')"
    "length aw' = ?P" "length pn' = ?P"
    "\<forall>v<?P. aw' ! v = angleSum (aw ! v) (cornersIn ar m [k] v)
          \<and> pn' ! v = weightedSum (pn ! v) (cornersIn ar m [k] v)"
    by blast
  have up: "[0..<Suc k] = [0..<k] @ [k]" by simp
  have "angleWeighted_loop ar m [0..<Suc k] ?st = Inr (aw', pn')"
    unfolding up using st(1) step(1) by (simp only: angleWeighted_loop_append bindE.simps)
  moreover have "\<forall>v<?P. aw' ! v = angleSum (Some 0) (cornersIn ar m [0..<Suc k] v)
          \<and> pn' ! v = weightedSum (Some (Vector3D 0 0 0)) (cornersIn ar m [0..<Suc k] v)"
    unfolding up using st(4) step(4)
    by (simp add: cornersIn_append angleSum_append weightedSum_append)
  ultimately show ?case using step(2,3) by blast
qed

lemma angleWeights_accumulated_sums:
  assumes "positionsInRange m"
  shows "angleWeights_accumulated ar m
     = Inr (map (\<lambda>v. angleSum (Some 0) (cornersAt ar m v)) [0..<numberOfPoints m],
            map (\<lambda>v. weightedSum (Some (Vector3D 0 0 0)) (cornersAt ar m v))
              [0..<numberOfPoints m])"
proof -
  from angleWeighted_loop_prefix [OF assms order_refl, of ar]
  obtain aw pn where st: "angleWeights_accumulated ar m = Inr (aw, pn)"
    "length aw = length (m_points m)" "length pn = length (m_points m)"
    "\<forall>v<length (m_points m).
        aw ! v = angleSum (Some 0) (cornersAt ar m v)
      \<and> pn ! v = weightedSum (Some (Vector3D 0 0 0)) (cornersAt ar m v)"
    unfolding angleWeights_accumulated_def cornersAt_def by blast
  have "aw = map (\<lambda>v. angleSum (Some 0) (cornersAt ar m v)) [0..<numberOfPoints m]"
    using st(2,4) by (intro nth_equalityI) (simp_all add: numberOfPoints_def)
  moreover have "pn = map (\<lambda>v. weightedSum (Some (Vector3D 0 0 0)) (cornersAt ar m v))
      [0..<numberOfPoints m]"
    using st(3,4) by (intro nth_equalityI) (simp_all add: numberOfPoints_def)
  ultimately show ?thesis using st(1) by simp
qed

lemma cornersIn_angles:
  assumes "c \<in> set (cornersIn ar m is v)" and "fst c = Some a"
  shows "0 \<le> a"
proof -
  from assms(1) obtain i where "(v, c) \<in> set (faceCorners ar m i)"
    by (auto simp: cornersIn_def)
  then obtain p q r where "c = cornerAngleNormal ar p q r"
    by (auto simp: faceCorners_def Let_def)
  with assms(2) show ?thesis using cornerAngleNormal_nonneg by blast
qed

lemma angleSum_nonneg:
  assumes "\<forall>c\<in>set cs. \<forall>a. fst c = Some a \<longrightarrow> 0 \<le> a" and "angleSum (Some 0) cs = Some w"
  shows "0 \<le> w"
  using assms
proof (induction cs arbitrary: w rule: rev_induct)
  case Nil
  then show ?case by (simp add: angleSum_def)
next
  case (snoc c cs)
  from snoc.prems(2) obtain w' a where s: "angleSum (Some 0) cs = Some w'" "fst c = Some a"
    "w = w' + a"
    by (auto simp: angleSum_def nan2_def split: option.splits)
  with snoc show ?case by auto
qed

lemma zero_weight_sum:
  assumes "\<forall>c\<in>set cs. \<forall>a. fst c = Some a \<longrightarrow> 0 \<le> a" and "angleSum (Some 0) cs = Some 0"
  shows "weightedSum (Some (Vector3D 0 0 0)) cs
     = (if \<forall>c\<in>set cs. snd c \<noteq> None then Some (Vector3D 0 0 0) else None)"
  using assms
proof (induction cs rule: rev_induct)
  case Nil
  then show ?case by (simp add: weightedSum_def)
next
  case (snoc c cs)
  from snoc.prems(2) obtain w' a where s: "angleSum (Some 0) cs = Some w'" "fst c = Some a"
    "w' + a = 0"
    by (auto simp: angleSum_def nan2_def split: option.splits)
  have "0 \<le> w'" using angleSum_nonneg [OF _ s(1)] snoc.prems(1) by simp
  moreover have "0 \<le> a" using snoc.prems(1) s(2) by simp
  ultimately have z: "w' = 0" "a = 0" using s(3) by simp_all
  have ih: "weightedSum (Some (Vector3D 0 0 0)) cs
     = (if \<forall>c\<in>set cs. snd c \<noteq> None then Some (Vector3D 0 0 0) else None)"
    using snoc.IH snoc.prems(1) s(1) z(1) by simp
  show ?case
    using s(2) z(2)
    by (cases "snd c")
       (simp_all add: weightedSum_append ih, 
        simp_all add: weightedSum_def nan2_def Vector3D_add_def Vector3D_scale_def)
qed

lemma cornersAt_no_face:
  assumes "\<forall>f\<in>set (m_pointIndices m). \<not> cornerOf f v"
  shows "cornersAt ar m v = []"
proof -
  have "fst c \<noteq> v" if "c \<in> set (faceCorners ar m i)" "i < numberOfFaces m" for c i
  proof -
    from that(2) have "m_pointIndices m ! i \<in> set (m_pointIndices m)"
      by (simp add: numberOfFaces_def)
    with assms have "\<not> cornerOf (m_pointIndices m ! i) v" by blast
    with that(1) show ?thesis by (auto simp: faceCorners_def Let_def cornerOf_def)
  qed
  then show ?thesis
    by (auto simp: cornersAt_def cornersIn_def filter_empty_conv)
qed

text \<open>
  In exact arithmetic the dot product at a corner is a NaN exactly when an incident
  edge has length zero, and otherwise lies in \<open>[-1, 1]\<close>: there the clamp changes
  nothing.
\<close>

lemma length3_zero_iff: "length3 a = 0 \<longleftrightarrow> a = Vector3D 0 0 0"
  by (cases a) (auto simp: length3_def lengthSquared_def add_nonneg_eq_0_iff)

lemma cornerDot_exact_nan: "cornerDot exactArith p q r = None \<longleftrightarrow> q = p \<or> r = p"
  by (cases p; cases q; cases r)
     (auto simp: cornerDot_def exactArith_def normalize_def Vector3D_div_def nan2_def
        length3_zero_iff Vector3D_sub_def split: option.splits)

lemma dot_bound: "\<bar>dot a b\<bar> \<le> length3 a * length3 b"
proof -
  obtain a1 a2 a3 where a: "a = Vector3D a1 a2 a3" by (cases a)
  obtain b1 b2 b3 where b: "b = Vector3D b1 b2 b3" by (cases b)
  have "lengthSquared a * lengthSquared b - (dot a b)\<^sup>2
      = (a1 * b2 - a2 * b1)\<^sup>2 + (a2 * b3 - a3 * b2)\<^sup>2 + (a3 * b1 - a1 * b3)\<^sup>2"
    by (simp add: a b lengthSquared_def dot_def power2_eq_square algebra_simps)
  moreover have "0 \<le> (a1 * b2 - a2 * b1)\<^sup>2 + (a2 * b3 - a3 * b2)\<^sup>2
      + (a3 * b1 - a1 * b3)\<^sup>2"
    by simp
  ultimately have "(dot a b)\<^sup>2 \<le> lengthSquared a * lengthSquared b"
    by linarith
  also have "\<dots> = (length3 a * length3 b)\<^sup>2"
    by (simp add: length3_def power_mult_distrib lengthSquared_nonneg)
  finally have "\<bar>dot a b\<bar> \<le> \<bar>length3 a * length3 b\<bar>"
    by (simp add: abs_le_square_iff)
  moreover have "0 \<le> length3 a * length3 b"
    by (simp add: length3_def lengthSquared_nonneg)
  ultimately show ?thesis by simp
qed

lemma dot_div: "s \<noteq> 0 \<Longrightarrow> t \<noteq> 0 \<Longrightarrow>
    dot (Vector3D (vx a / s) (vy a / s) (vz a / s)) (Vector3D (vx b / t) (vy b / t) (vz b / t))
      = dot a b / (s * t)"
  by (simp add: dot_def field_simps)

lemma cornerDot_exact_range:
  assumes "cornerDot exactArith p q r = Some d"
  shows "- 1 \<le> d \<and> d \<le> 1"
proof -
  let ?a = "Vector3D_sub q p" and ?b = "Vector3D_sub r p"
  from assms have nz: "length3 ?a \<noteq> 0" "length3 ?b \<noteq> 0"
    and d: "d = dot ?a ?b / (length3 ?a * length3 ?b)"
    by (auto simp: cornerDot_def exactArith_def normalize_def Vector3D_div_def nan2_def
        dot_div split: option.splits if_splits)
  have pos: "0 < length3 ?a * length3 ?b"
    using nz by (simp add: length3_def lengthSquared_nonneg zero_less_mult_iff less_le)
  have "\<bar>d\<bar> = \<bar>dot ?a ?b\<bar> / (length3 ?a * length3 ?b)"
    unfolding d using pos by (simp only: abs_divide abs_of_pos)
  also have "\<dots> \<le> 1"
    using dot_bound [of ?a ?b] pos by (simp add: divide_le_eq)
  finally have "\<bar>d\<bar> \<le> 1" .
  then show ?thesis by (simp add: abs_le_iff)
qed

text \<open>
  C6, as amended. On a mesh whose position indices all name positions, and whatever the
  vector arithmetic rounds to: the angle of a corner is \<open>acos\<close> of the clamped dot
  product of its two normalized edges; whenever that dot product is a number, the
  clamped value lies in \<open>[-1, 1]\<close> and the angle is a number, and a NaN dot product
  gives a NaN angle. The accumulated angle and the accumulated vector of a vertex are
  the sums over the corners at it. The vector is divided by the angle sum exactly when
  the sum is strictly positive, and is the normal as it stands otherwise. A vertex whose
  angle sum is zero has the zero vector as its normal if no corner at it has a NaN
  normal, and a NaN otherwise; a vertex of no face has the angle sum zero and the zero
  vector. \<open>normalFaces\<close> is a copy of \<open>positionFaces\<close> afterwards.
\<close>

theorem setAngleWeightedVertexNormal_guarded:
  assumes "positionsInRange m"
  shows "(\<forall>p q r.
            fst (cornerAngleNormal ar p q r)
              = (case cornerDot ar p q r of None \<Rightarrow> None
                 | Some d \<Rightarrow> Some (arccos (clamp d (- 1) 1)))
          \<and> (\<forall>d. cornerDot ar p q r = Some d
                 \<longrightarrow> - 1 \<le> clamp d (- 1) 1 \<and> clamp d (- 1) 1 \<le> 1))
       \<and> angleWeights_accumulated ar m
           = Inr (map (\<lambda>v. angleSum (Some 0) (cornersAt ar m v)) [0..<numberOfPoints m],
                  map (\<lambda>v. weightedSum (Some (Vector3D 0 0 0)) (cornersAt ar m v))
                    [0..<numberOfPoints m])
       \<and> (\<exists>N. length N = numberOfPoints m
             \<and> setAngleWeightedVertexNormal ar m
                 = Inr (m\<lparr>m_normals := N, m_normalIndices := m_pointIndices m\<rparr>)
             \<and> (\<forall>v<numberOfPoints m.
                   N ! v = (case angleSum (Some 0) (cornersAt ar m v) of
                              None \<Rightarrow> weightedSum (Some (Vector3D 0 0 0)) (cornersAt ar m v)
                            | Some w \<Rightarrow>
                                if 0 < w
                                then Option.bind
                                       (weightedSum (Some (Vector3D 0 0 0)) (cornersAt ar m v))
                                       (\<lambda>s. Vector3D_div s w)
                                else weightedSum (Some (Vector3D 0 0 0)) (cornersAt ar m v))
                 \<and> (angleSum (Some 0) (cornersAt ar m v) = Some 0 \<longrightarrow>
                      N ! v = (if \<forall>c\<in>set (cornersAt ar m v). snd c \<noteq> None
                               then Some (Vector3D 0 0 0) else None))
                 \<and> ((\<forall>f\<in>set (m_pointIndices m). \<not> cornerOf f v) \<longrightarrow>
                      angleSum (Some 0) (cornersAt ar m v) = Some 0
                      \<and> N ! v = Some (Vector3D 0 0 0))))"
proof (intro conjI)
  show "\<forall>p q r.
            fst (cornerAngleNormal ar p q r)
              = (case cornerDot ar p q r of None \<Rightarrow> None
                 | Some d \<Rightarrow> Some (arccos (clamp d (- 1) 1)))
          \<and> (\<forall>d. cornerDot ar p q r = Some d
                 \<longrightarrow> - 1 \<le> clamp d (- 1) 1 \<and> clamp d (- 1) 1 \<le> 1)"
    using clamp_range by (auto simp: cornerAngleNormal_angle split: option.splits)
  let ?P = "numberOfPoints m"
  let ?W = "\<lambda>v. angleSum (Some 0) (cornersAt ar m v)"
  let ?S = "\<lambda>v. weightedSum (Some (Vector3D 0 0 0)) (cornersAt ar m v)"
  show acc: "angleWeights_accumulated ar m = Inr (map ?W [0..<?P], map ?S [0..<?P])"
    using assms by (rule angleWeights_accumulated_sums)
  let ?N = "map (divideByWeight (map ?W [0..<?P]) (map ?S [0..<?P])) [0..<?P]"
  have run: "setAngleWeightedVertexNormal ar m
      = Inr (m\<lparr>m_normals := ?N, m_normalIndices := m_pointIndices m\<rparr>)"
    by (simp add: setAngleWeightedVertexNormal_def acc numberOfPoints_def)
  have rule: "?N ! v = (case ?W v of None \<Rightarrow> ?S v
        | Some w \<Rightarrow> if 0 < w then Option.bind (?S v) (\<lambda>s. Vector3D_div s w) else ?S v)"
    if "v < ?P" for v
    using that by (simp add: divideByWeight_def split: option.splits)
  have zero: "?N ! v = (if \<forall>c\<in>set (cornersAt ar m v). snd c \<noteq> None
                        then Some (Vector3D 0 0 0) else None)"
    if "v < ?P" "?W v = Some 0" for v
  proof -
    have "\<forall>c\<in>set (cornersAt ar m v). \<forall>a. fst c = Some a \<longrightarrow> 0 \<le> a"
      unfolding cornersAt_def using cornersIn_angles by blast
    from zero_weight_sum [OF this that(2)] show ?thesis
      using rule [OF that(1)] that(2) by simp
  qed
  have lone: "?W v = Some 0 \<and> ?N ! v = Some (Vector3D 0 0 0)"
    if "v < ?P" "\<forall>f\<in>set (m_pointIndices m). \<not> cornerOf f v" for v
  proof -
    have e: "cornersAt ar m v = []" using that(2) by (rule cornersAt_no_face)
    then have w: "?W v = Some 0" by (simp add: angleSum_def)
    with zero [OF that(1)] e show ?thesis by simp
  qed
  show "\<exists>N. length N = ?P
             \<and> setAngleWeightedVertexNormal ar m
                 = Inr (m\<lparr>m_normals := N, m_normalIndices := m_pointIndices m\<rparr>)
             \<and> (\<forall>v<?P.
                   N ! v = (case ?W v of None \<Rightarrow> ?S v
                            | Some w \<Rightarrow>
                                if 0 < w then Option.bind (?S v) (\<lambda>s. Vector3D_div s w)
                                else ?S v)
                 \<and> (?W v = Some 0 \<longrightarrow>
                      N ! v = (if \<forall>c\<in>set (cornersAt ar m v). snd c \<noteq> None
                               then Some (Vector3D 0 0 0) else None))
                 \<and> ((\<forall>f\<in>set (m_pointIndices m). \<not> cornerOf f v) \<longrightarrow>
                      ?W v = Some 0 \<and> N ! v = Some (Vector3D 0 0 0)))"
  proof (rule exI [of _ ?N], intro conjI allI impI)
    show "length ?N = ?P" by simp
    show "setAngleWeightedVertexNormal ar m
        = Inr (m\<lparr>m_normals := ?N, m_normalIndices := m_pointIndices m\<rparr>)" by (rule run)
  next
    fix v assume "v < ?P"
    then show "?N ! v = (case ?W v of None \<Rightarrow> ?S v
        | Some w \<Rightarrow> if 0 < w then Option.bind (?S v) (\<lambda>s. Vector3D_div s w) else ?S v)"
      by (rule rule)
  next
    fix v assume "v < ?P" "?W v = Some 0"
    then show "?N ! v = (if \<forall>c\<in>set (cornersAt ar m v). snd c \<noteq> None
                        then Some (Vector3D 0 0 0) else None)"
      by (rule zero)
  next
    fix v assume v: "v < ?P" "\<forall>f\<in>set (m_pointIndices m). \<not> cornerOf f v"
    from lone [OF v] show "?W v = Some 0" ..
    from lone [OF v] show "?N ! v = Some (Vector3D 0 0 0)" ..
  qed
qed

lemma sqrt_625: "sqrt 625 = 25"
  by (rule real_sqrt_unique) simp_all

lemma sqrt_97969: "sqrt 97969 = 313"
  by (rule real_sqrt_unique) simp_all

lemma nearlyCollinear_corner:
  "cornersAt overshootArith nearlyCollinear 0 = [(Some 0, Some (Vector3D 0 0 1))]"
  by (simp add: cornersAt_def cornersIn_def faceCorners_def nearlyCollinear_def numberOfFaces_def
      cornerAngleNormal_def overshootArith_def exactArith_def Let_def normalize_def nan2_def
      clamp_nan_def clamp_def std_acos_def Vector3D_sub_def Vector3D_div_def cross_def dot_def
      length3_def lengthSquared_def sqrt_625 sqrt_97969 real_sqrt_divide)

theorem setAngleWeightedVertexNormal_guarded_witness:
  "(\<exists>N. setAngleWeightedVertexNormal exactArith loneVertex
           = Inr (loneVertex\<lparr>m_normals := N, m_normalIndices := [(0, 1, 2)]\<rparr>)
        \<and> length N = 4 \<and> N ! 3 = Some (Vector3D 0 0 0))
   \<and> (\<exists>N. setAngleWeightedVertexNormal overshootArith nearlyCollinear
           = Inr (nearlyCollinear\<lparr>m_normals := N, m_normalIndices := [(0, 1, 2)]\<rparr>)
        \<and> length N = 3 \<and> N ! 0 = Some (Vector3D 0 0 0))"
proof
  have n: "numberOfPoints loneVertex = 4" "m_pointIndices loneVertex = [(0, 1, 2)]"
    by (simp_all add: loneVertex_def numberOfPoints_def)
  have rng: "positionsInRange loneVertex"
    by (simp add: positionsInRange_def loneVertex_def numberOfPoints_def)
  from setAngleWeightedVertexNormal_guarded [OF rng, of exactArith, THEN conjunct2, THEN conjunct2]
  obtain N where N: "length N = numberOfPoints loneVertex"
    "setAngleWeightedVertexNormal exactArith loneVertex
       = Inr (loneVertex\<lparr>m_normals := N, m_normalIndices := m_pointIndices loneVertex\<rparr>)"
    "\<forall>v<numberOfPoints loneVertex.
       ((\<forall>f\<in>set (m_pointIndices loneVertex). \<not> cornerOf f v) \<longrightarrow> N ! v = Some (Vector3D 0 0 0))"
    by blast
  have "\<forall>f\<in>set (m_pointIndices loneVertex). \<not> cornerOf f 3"
    by (simp add: n cornerOf_def)
  with N(3) have "N ! 3 = Some (Vector3D 0 0 0)" by (simp add: n)
  with N(1,2) show "\<exists>N. setAngleWeightedVertexNormal exactArith loneVertex
           = Inr (loneVertex\<lparr>m_normals := N, m_normalIndices := [(0, 1, 2)]\<rparr>)
        \<and> length N = 4 \<and> N ! 3 = Some (Vector3D 0 0 0)"
    by (intro exI [of _ N]) (simp add: n)
next
  have n: "numberOfPoints nearlyCollinear = 3" "m_pointIndices nearlyCollinear = [(0, 1, 2)]"
    by (simp_all add: nearlyCollinear_def numberOfPoints_def)
  have rng: "positionsInRange nearlyCollinear"
    by (simp add: positionsInRange_def nearlyCollinear_def numberOfPoints_def)
  from setAngleWeightedVertexNormal_guarded [OF rng, of overshootArith, THEN conjunct2,
      THEN conjunct2]
  obtain N where N: "length N = numberOfPoints nearlyCollinear"
    "setAngleWeightedVertexNormal overshootArith nearlyCollinear
       = Inr (nearlyCollinear\<lparr>m_normals := N,
                m_normalIndices := m_pointIndices nearlyCollinear\<rparr>)"
    "\<forall>v<numberOfPoints nearlyCollinear.
       (angleSum (Some 0) (cornersAt overshootArith nearlyCollinear v) = Some 0 \<longrightarrow>
          N ! v = (if \<forall>c\<in>set (cornersAt overshootArith nearlyCollinear v). snd c \<noteq> None
                   then Some (Vector3D 0 0 0) else None))"
    by blast
  have "angleSum (Some 0) (cornersAt overshootArith nearlyCollinear 0) = Some 0"
    by (simp add: nearlyCollinear_corner angleSum_def nan2_def)
  with N(3) have "N ! 0 = Some (Vector3D 0 0 0)"
    by (simp add: n nearlyCollinear_corner)
  with N(1,2) show "\<exists>N. setAngleWeightedVertexNormal overshootArith nearlyCollinear
           = Inr (nearlyCollinear\<lparr>m_normals := N, m_normalIndices := [(0, 1, 2)]\<rparr>)
        \<and> length N = 3 \<and> N ! 0 = Some (Vector3D 0 0 0)"
    by (intro exI [of _ N]) (simp add: n)
qed

lemma sqrt_4: "sqrt 4 = 2"
  by (rule real_sqrt_unique) simp_all

text \<open>
  The claim as stated fails on a face with collinear vertices, in exact arithmetic. At
  the two end vertices the normalized edges coincide: the angle is \<open>acos 1 = 0\<close>, their
  cross product is the zero vector and its normalization a NaN, so the vertex
  accumulates the weight 0 and the vector \<open>0 * NaN\<close>. Its weight is zero and its normal
  is a NaN, not the zero vector.
\<close>

theorem setAngleWeightedVertexNormal_collinear_counterexample:
  "angleWeights_accumulated exactArith collinearFace
     = Inr ([Some 0, Some pi, Some 0], [None, None, None])
   \<and> setAngleWeightedVertexNormal exactArith collinearFace
     = Inr (collinearFace\<lparr>m_normals := [None, None, None],
                           m_normalIndices := [(0, 1, 2)]\<rparr>)"
proof -
  have acc: "angleWeights_accumulated exactArith collinearFace
     = Inr ([Some 0, Some pi, Some 0], [None, None, None])"
    by (simp add: angleWeights_accumulated_def collinearFace_def numberOfFaces_def
        array_at_def array_set_def gather3_def addCorner_def cornerAngleNormal_def Let_def
        exactArith_def normalize_def nan2_def clamp_nan_def clamp_def std_acos_def
        Vector3D_sub_def Vector3D_div_def cross_def dot_def length3_def lengthSquared_def sqrt_4)
  have n: "numberOfFaces collinearFace = 1" "length (m_points collinearFace) = 3"
    "m_pointIndices collinearFace = [(0, 1, 2)]"
    by (simp_all add: collinearFace_def numberOfFaces_def)
  have "map (divideByWeight [Some 0, Some pi, Some 0] [None, None, None]) [0..<3]
      = [None, None, None]"
    by (simp add: divideByWeight_def upt_rec)
  then have "setAngleWeightedVertexNormal exactArith collinearFace
     = Inr (collinearFace\<lparr>m_normals := [None, None, None],
                           m_normalIndices := [(0, 1, 2)]\<rparr>)"
    unfolding setAngleWeightedVertexNormal_def acc by (simp add: n)
  with acc show ?thesis by simp
qed

end
